theory Spec2Isabelle
  imports Main
begin

section \<open>The declarative node model\<close>

text \<open>
  The builder functions of \<^verbatim>\<open>src/lib\<close> (\<^verbatim>\<open>App\<close>, \<^verbatim>\<open>RouteGroup\<close>, \<^verbatim>\<open>Route\<close>,
  \<^verbatim>\<open>Middleware\<close>) return objects \<^verbatim>\<open>{ type: "<Kind>", props: {...} }\<close>.  A JSX tag whose
  type is a function is an object \<^verbatim>\<open>{ type: f, props }\<close>; the compiler calls \<^verbatim>\<open>f(props)\<close>
  and recurses into the result.

  A prop that takes one middleware function or an array of them (\<^verbatim>\<open>middleware\<close>,
  \<^verbatim>\<open>use\<close>) is one of: absent, one function, an array.
\<close>

datatype 'm mw_prop = MwUndefined | MwFn 'm | MwArr "'m list"

datatype schema = Schema string

datatype cors_prop = CorsFlag bool | CorsOptions string

text \<open>
  The element tree as \<^verbatim>\<open>processElement\<close> tells its cases apart:
  \<^item> \<open>Nullish\<close>: a falsy value (\<^verbatim>\<open>null\<close>, \<^verbatim>\<open>undefined\<close>, \<^verbatim>\<open>false\<close>);
  \<^item> \<open>Primitive\<close>: a truthy value whose \<^verbatim>\<open>typeof\<close> is not \<^verbatim>\<open>"object"\<close>;
  \<^item> \<open>Fragment\<close>: an array of elements;
  \<^item> \<open>Component name use result\<close>: an object whose \<^verbatim>\<open>type\<close> is a function
    called \<open>name\<close>; \<open>use\<close> is the \<^verbatim>\<open>use\<close> entry of its props (the only prop the
    compiler reads off a component it has not called) and \<open>result\<close> is what the
    function returns on the props;
  \<^item> \<open>App\<close>, \<open>RouteGroup\<close>, \<open>Route\<close>, \<open>Middleware\<close>: the objects of the four
    builders, with their props; an absent prop is \<open>None\<close> (or \<open>Nullish\<close>, or
    \<open>MwUndefined\<close>), a number prop is a \<open>nat\<close>, a string prop a \<open>string\<close>;
  \<^item> \<open>Container\<close>: any other object, with its \<^verbatim>\<open>props.children\<close>.
\<close>

datatype ('m, 'h) element =
    Nullish
  | Primitive
  | Fragment "('m, 'h) element list"
  | Component string "'m mw_prop" "('m, 'h) element"
  | App "nat option" "cors_prop option" "'m mw_prop" "('m, 'h) element"
  | RouteGroup "string option" "'m mw_prop" "('m, 'h) element"
  | Route "string option" "string option" "'m mw_prop" "'h option"
      "schema option" "schema option"
  | Middleware "'m mw_prop"
  | Container "('m, 'h) element"

section \<open>JavaScript truthiness and strings\<close>

text \<open>\<^verbatim>\<open>if (s)\<close> on an optional string: absent and the empty string are falsy.\<close>

fun truthy_str :: "string option \<Rightarrow> bool" where
  "truthy_str None = False"
| "truthy_str (Some s) = (s \<noteq> [])"

text \<open>\<^verbatim>\<open>if (n)\<close> on an optional number: absent and \<open>0\<close> are falsy.\<close>

fun truthy_num :: "nat option \<Rightarrow> bool" where
  "truthy_num None = False"
| "truthy_num (Some n) = (n \<noteq> 0)"

text \<open>
  \<^verbatim>\<open>toUpperCase\<close> and \<^verbatim>\<open>toLowerCase\<close> on the ASCII letters (a \<open>string\<close> is a list of
  bytes; bytes outside \<open>a..z\<close>, \<open>A..Z\<close> are unchanged).
\<close>

definition upperChar :: "char \<Rightarrow> char" where
  "upperChar c =
     (case map_of (zip ''abcdefghijklmnopqrstuvwxyz'' ''ABCDEFGHIJKLMNOPQRSTUVWXYZ'') c of
        Some u \<Rightarrow> u
      | None \<Rightarrow> c)"

definition lowerChar :: "char \<Rightarrow> char" where
  "lowerChar c =
     (case map_of (zip ''ABCDEFGHIJKLMNOPQRSTUVWXYZ'' ''abcdefghijklmnopqrstuvwxyz'') c of
        Some l \<Rightarrow> l
      | None \<Rightarrow> c)"

definition toUpperCase :: "string \<Rightarrow> string" where
  "toUpperCase s = map upperChar s"

definition toLowerCase :: "string \<Rightarrow> string" where
  "toLowerCase s = map lowerChar s"

section \<open>The tree compiler: \<^verbatim>\<open>processElement\<close>\<close>

text \<open>The module-level stores \<^verbatim>\<open>routes\<close> and \<^verbatim>\<open>appConfig\<close>.\<close>

record ('m, 'h) route =
  route_method :: string
  path :: string
  handler :: 'h
  middlewares :: "'m list"
  querySchema :: "schema option"
  bodySchema :: "schema option"

record app_config =
  port :: "nat option"
  cors :: "cors_prop option"

record ('m, 'h) store =
  routes :: "('m, 'h) route list"
  appConfig :: app_config

text \<open>The two \<^verbatim>\<open>throw new Error(...)\<close> of the compiler.\<close>

datatype error =
    MissingMethod string
  | BodyNotAllowed string string

text \<open>
  \<^verbatim>\<open>if (props.middleware) { if (Array.isArray(..)) acc.push(...it) else acc.push(it) }\<close>
\<close>

fun pushMiddleware :: "'m list \<Rightarrow> 'm mw_prop \<Rightarrow> 'm list" where
  "pushMiddleware acc MwUndefined = acc"
| "pushMiddleware acc (MwFn f) = acc @ [f]"
| "pushMiddleware acc (MwArr fs) = acc @ fs"

text \<open>
  The test of both passes over a group's children:
  \<^verbatim>\<open>child && typeof child === "object" &&
    (child.type === "Middleware" || (child.type && child.type.name === "Middleware"))\<close>
\<close>

fun isMiddlewareNode :: "('m, 'h) element \<Rightarrow> bool" where
  "isMiddlewareNode (Middleware u) = True"
| "isMiddlewareNode (Component name u r) = (name = ''Middleware'')"
| "isMiddlewareNode _ = False"

text \<open>First pass over a group's children: the \<^verbatim>\<open>use\<close> of every middleware node.\<close>

fun collectMiddleware :: "'m list \<Rightarrow> ('m, 'h) element list \<Rightarrow> 'm list" where
  "collectMiddleware acc [] = acc"
| "collectMiddleware acc (Middleware u # cs) = collectMiddleware (pushMiddleware acc u) cs"
| "collectMiddleware acc (Component name u r # cs) =
     (if name = ''Middleware'' then collectMiddleware (pushMiddleware acc u) cs
      else collectMiddleware acc cs)"
| "collectMiddleware acc (c # cs) = collectMiddleware acc cs"

text \<open>
  \<^verbatim>\<open>Array.isArray(props.children) ? props.children : [props.children]\<close>, under the
  guard \<^verbatim>\<open>if (props.children)\<close>: falsy children give nothing to walk.
\<close>

fun childList :: "('m, 'h) element \<Rightarrow> ('m, 'h) element list" where
  "childList Nullish = []"
| "childList (Fragment cs) = cs"
| "childList c = [c]"

definition bodyAllowedMethods :: "string list" where
  "bodyAllowedMethods = [''POST'', ''PUT'', ''PATCH'', ''DELETE'']"

lemma size_childList: "size_list size (childList c) \<le> Suc (size c)"
  by (cases c) simp_all

text \<open>
  \<open>processElement\<close> walks the tree with the accumulated prefix and middleware chain
  and updates the store; a \<^verbatim>\<open>throw\<close> is \<open>Inl\<close>.  \<open>forEachElement\<close> is
  \<^verbatim>\<open>forEach((el) => processElement(el, ...))\<close>; \<open>forEachGroupChild\<close> is the second
  pass over a group's children, which skips the middleware nodes.
\<close>

function (sequential) processElement ::
    "('m, 'h) element \<Rightarrow> string \<Rightarrow> 'm list \<Rightarrow> ('m, 'h) store \<Rightarrow> error + ('m, 'h) store"
  and forEachElement ::
    "('m, 'h) element list \<Rightarrow> string \<Rightarrow> 'm list \<Rightarrow> ('m, 'h) store \<Rightarrow> error + ('m, 'h) store"
  and forEachGroupChild ::
    "('m, 'h) element list \<Rightarrow> string \<Rightarrow> 'm list \<Rightarrow> ('m, 'h) store \<Rightarrow> error + ('m, 'h) store"
where
  "processElement Nullish pathPrefix mws st = Inr st"
| "processElement Primitive pathPrefix mws st = Inr st"
| "processElement (Fragment els) pathPrefix mws st = forEachElement els pathPrefix mws st"
| "processElement (Component name u result) pathPrefix mws st =
     processElement result pathPrefix mws st"
| "processElement (App pport pcors pmw children) pathPrefix mws st =
     (let st1 = st\<lparr>appConfig :=
                  \<lparr>port = Some (if truthy_num pport then the pport else 9000), cors = pcors\<rparr>\<rparr>;
          appMiddlewares = pushMiddleware mws pmw
      in processElement children pathPrefix appMiddlewares st1)"
| "processElement (RouteGroup pprefix pmw children) pathPrefix mws st =
     (let groupPrefix = (if truthy_str pprefix then pathPrefix @ the pprefix else pathPrefix);
          groupMiddlewares =
            collectMiddleware (pushMiddleware mws pmw) (childList children)
      in forEachGroupChild (childList children) groupPrefix groupMiddlewares st)"
| "processElement (Route ppath pmethod pmw pchildren pquery pbody) pathPrefix mws st =
     (if truthy_str ppath \<and> pchildren \<noteq> None then
        if \<not> truthy_str pmethod then Inl (MissingMethod (the ppath))
        else
          let fullPath = pathPrefix @ the ppath;
              routeMiddlewares = pushMiddleware mws pmw
          in if pbody \<noteq> None \<and> toUpperCase (the pmethod) \<notin> set bodyAllowedMethods
             then Inl (BodyNotAllowed (toUpperCase (the pmethod)) fullPath)
             else Inr (st\<lparr>routes := routes st @
                    [\<lparr>route_method = toLowerCase (the pmethod), path = fullPath,
                      handler = the pchildren, middlewares = routeMiddlewares,
                      querySchema = pquery, bodySchema = pbody\<rparr>]\<rparr>)
      else Inr st)"
| "processElement (Middleware u) pathPrefix mws st = Inr st"
| "processElement (Container children) pathPrefix mws st =
     processElement children pathPrefix mws st"
| "forEachElement [] pathPrefix mws st = Inr st"
| "forEachElement (el # els) pathPrefix mws st =
     (case processElement el pathPrefix mws st of
        Inl e \<Rightarrow> Inl e
      | Inr st' \<Rightarrow> forEachElement els pathPrefix mws st')"
| "forEachGroupChild [] pathPrefix mws st = Inr st"
| "forEachGroupChild (c # cs) pathPrefix mws st =
     (if isMiddlewareNode c then forEachGroupChild cs pathPrefix mws st
      else case processElement c pathPrefix mws st of
             Inl e \<Rightarrow> Inl e
           | Inr st' \<Rightarrow> forEachGroupChild cs pathPrefix mws st')"
  by pat_completeness auto

termination
proof (relation "measure (\<lambda>x. case x of
          Inl (e, _) \<Rightarrow> 2 * size e + 1
        | Inr (Inl (es, _)) \<Rightarrow> 2 * size_list size es
        | Inr (Inr (es, _)) \<Rightarrow> 2 * size_list size es)", goal_cases)
  case (5 pprefix pmw children pathPrefix mws st x xa)
  show ?case using size_childList [of children] by simp
qed simp_all


text \<open>
  The first half of \<^verbatim>\<open>serve\<close>: both stores are reset, the tree is compiled from the
  empty prefix and the empty chain, and the port is \<^verbatim>\<open>appConfig.port || 6969\<close>.
\<close>

definition emptyStore :: "('m, 'h) store" where
  "emptyStore = \<lparr>routes = [], appConfig = \<lparr>port = None, cors = None\<rparr>\<rparr>"

definition compile :: "('m, 'h) element \<Rightarrow> error + ('m, 'h) store" where
  "compile element = processElement element [] [] emptyStore"

definition listenPort :: "('m, 'h) store \<Rightarrow> nat" where
  "listenPort st =
     (if truthy_num (port (appConfig st)) then the (port (appConfig st)) else 6969)"

definition servePort :: "('m, 'h) element \<Rightarrow> error + nat" where
  "servePort element =
     (case compile element of Inl e \<Rightarrow> Inl e | Inr st \<Rightarrow> Inr (listenPort st))"

section \<open>Values, and the calls made on the transport's response object\<close>

datatype json =
    JNull
  | JBool bool
  | JNum int
  | JStr string
  | JArr "json list"
  | JObj "(string \<times> json) list"

text \<open>The props of a Response node, as the \<^verbatim>\<open>Response\<close> builder types them.\<close>

record response_props =
  rstatus :: "nat option"
  rjson :: "json option"
  rtext :: "string option"
  rhtml :: "string option"
  rheaders :: "(string \<times> string) list option"
  rredirect :: "string option"

text \<open>
  The values a handler or middleware returns, and the values kept in the context:
  the primitives, \<open>Object\<close> for an object or array that is not a Response node,
  \<open>ResponseElement\<close> for an object whose \<^verbatim>\<open>type\<close> is \<^verbatim>\<open>"Response"\<close> (or a function of
  that name), and the objects the engine seeds the context with.  Numbers are
  integers here.
\<close>

datatype jsval =
    Undefined
  | Null
  | Boolean bool
  | Number int
  | String string
  | Object json
  | ResponseElement response_props
  | ReqObject
  | ResObject
  | SchemaObject schema

text \<open>\<^verbatim>\<open>!output\<close>\<close>

fun falsy :: "jsval \<Rightarrow> bool" where
  "falsy Undefined = True"
| "falsy Null = True"
| "falsy (Boolean b) = (\<not> b)"
| "falsy (Number n) = (n = 0)"
| "falsy (String s) = (s = [])"
| "falsy _ = False"

text \<open>\<^verbatim>\<open>typeof output === "object"\<close>\<close>

fun isObject :: "jsval \<Rightarrow> bool" where
  "isObject Null = True"
| "isObject (Object j) = True"
| "isObject (ResponseElement p) = True"
| "isObject ReqObject = True"
| "isObject ResObject = True"
| "isObject (SchemaObject s) = True"
| "isObject _ = False"

definition digitChar :: "nat \<Rightarrow> char" where
  "digitChar d = ''0123456789'' ! d"

function showNat :: "nat \<Rightarrow> string" where
  "showNat n = (if n < 10 then [digitChar n] else showNat (n div 10) @ [digitChar (n mod 10)])"
  by pat_completeness auto

termination
  by (relation "measure id") auto

text \<open>\<^verbatim>\<open>String(output)\<close> on the primitives; on an object it is not called.\<close>

fun toString :: "jsval \<Rightarrow> string" where
  "toString Undefined = ''undefined''"
| "toString Null = ''null''"
| "toString (Boolean b) = (if b then ''true'' else ''false'')"
| "toString (Number n) = (if n < 0 then CHR ''-'' # showNat (nat (- n)) else showNat (nat n))"
| "toString (String s) = s"
| "toString _ = ''[object Object]''"

text \<open>
  The transport's response object is the external collaborator; the model keeps the
  calls the engine makes on it, in order: \<^verbatim>\<open>res.setHeader(h, v)\<close> and \<^verbatim>\<open>res.set(h, v)\<close>,
  \<^verbatim>\<open>res.status(n)\<close>, \<^verbatim>\<open>res.type(t)\<close>, \<^verbatim>\<open>res.json(j)\<close>, \<^verbatim>\<open>res.send(s)\<close>, \<^verbatim>\<open>res.end()\<close>,
  \<^verbatim>\<open>res.redirect(status, url)\<close>.  \<^verbatim>\<open>res.headersSent\<close> holds once a call that sends
  the response has been made.
\<close>

datatype res_call =
    SetHeader string string
  | Status nat
  | Type string
  | Json json
  | Send string
  | End
  | Redirect nat string

fun sends :: "res_call \<Rightarrow> bool" where
  "sends (Json j) = True"
| "sends (Send s) = True"
| "sends End = True"
| "sends (Redirect n u) = True"
| "sends _ = False"

definition headersSent :: "res_call list \<Rightarrow> bool" where
  "headersSent res = list_ex sends res"

text \<open>
  The transport refuses some calls by throwing, and the function that made the
  call ends there.  What is modelled of this: a status outside \<open>100..999\<close> is refused
  (by \<^verbatim>\<open>res.status\<close> and \<^verbatim>\<open>res.redirect\<close>), a header is refused when its name is not
  a token or its value has a control character, and once the response is sent any
  call that would write a header or a body is refused.
\<close>

definition validStatus :: "nat \<Rightarrow> bool" where
  "validStatus n = (100 \<le> n \<and> n \<le> 999)"

definition tokenChars :: string where
  "tokenChars =
     ''abcdefghijklmnopqrstuvwxyzABCDEFGHIJKLMNOPQRSTUVWXYZ0123456789!#$%&*+-.^_|~''"

definition validHeaderName :: "string \<Rightarrow> bool" where
  "validHeaderName h = (h \<noteq> [] \<and> list_all (\<lambda>c. c \<in> set tokenChars) h)"

definition validHeaderValue :: "string \<Rightarrow> bool" where
  "validHeaderValue v =
     list_all (\<lambda>c. (of_char c :: nat) = 9 \<or> (32 \<le> (of_char c :: nat) \<and> (of_char c :: nat) \<noteq> 127)) v"

fun accepts :: "res_call list \<Rightarrow> res_call \<Rightarrow> bool" where
  "accepts res (SetHeader h v) = (\<not> headersSent res \<and> validHeaderName h \<and> validHeaderValue v)"
| "accepts res (Status n) = validStatus n"
| "accepts res (Type t) = (\<not> headersSent res)"
| "accepts res (Json j) = (\<not> headersSent res)"
| "accepts res (Send s) = (\<not> headersSent res)"
| "accepts res End = True"
| "accepts res (Redirect n u) = (\<not> headersSent res \<and> validStatus n)"

text \<open>
  \<open>issue res cs\<close> makes the calls \<open>cs\<close> on \<open>res\<close> in order and stops at the first one
  that the transport refuses: the calls made, and whether one was refused.
\<close>

fun issue :: "res_call list \<Rightarrow> res_call list \<Rightarrow> res_call list \<times> bool" where
  "issue res [] = (res, False)"
| "issue res (c # cs) = (if accepts res c then issue (res @ [c]) cs else (res, True))"

text \<open>\<^verbatim>\<open>if (status) res.status(status)\<close>\<close>

definition setStatus :: "nat option \<Rightarrow> res_call list" where
  "setStatus st = (if truthy_num st then [Status (the st)] else [])"

text \<open>\<^verbatim>\<open>for (const [h, v] of Object.entries(headers)) res.setHeader(h, v)\<close>\<close>

definition setHeaders :: "(string \<times> string) list option \<Rightarrow> res_call list" where
  "setHeaders hs = (case hs of None \<Rightarrow> [] | Some kvs \<Rightarrow> map (\<lambda>(h, v). SetHeader h v) kvs)"

text \<open>
  The calls that the block \<^verbatim>\<open>if (isResponseElement) { ... }\<close> of
  \<^verbatim>\<open>sendResponseFromOutput\<close> makes for the props of a Response node, in order, when
  none is refused: the headers, then those of the first branch that applies.
\<close>

definition branchCalls :: "response_props \<Rightarrow> res_call list" where
  "branchCalls props =
     (if truthy_str (rredirect props) then
        (if truthy_num (rstatus props)
         then [Redirect (the (rstatus props)) (the (rredirect props))]
         else [Redirect 302 (the (rredirect props))])
      else if rtext props \<noteq> None then
        setStatus (rstatus props) @ [Type ''text/plain'', Send (the (rtext props))]
      else if rhtml props \<noteq> None then
        setStatus (rstatus props) @ [Type ''text/html'', Send (the (rhtml props))]
      else if rjson props \<noteq> None then
        setStatus (rstatus props) @ [Json (the (rjson props))]
      else if truthy_num (rstatus props) then
        [Status (the (rstatus props)), End]
      else [Status 200, End])"

definition responseCalls :: "response_props \<Rightarrow> res_call list" where
  "responseCalls props = setHeaders (rheaders props) @ branchCalls props"

text \<open>
  \<open>sendResponseFromOutput res output\<close>: the calls already made on \<open>res\<close>, followed by
  the calls this function makes.  For a Response node it makes the calls above
  until one is refused; \<open>sendResponseThrows res output\<close> says whether one was, that
  is, whether the function ends by a throw.
\<close>

definition sendResponseFromOutput :: "res_call list \<Rightarrow> jsval \<Rightarrow> res_call list" where
  "sendResponseFromOutput res output =
     (if falsy output then
        (if \<not> headersSent res
         then res @ [Status 500, Json (JObj [(''error'', JStr ''No response generated'')])]
         else res)
      else if isObject output then
        (case output of
           ResponseElement props \<Rightarrow> fst (issue res (responseCalls props))
         | _ \<Rightarrow>
             (if \<not> headersSent res
              then res @ [Status 500, Json (JObj [(''error'', JStr ''Invalid response format'')])]
              else res))
      else res @ [Send (toString output)])"

definition sendResponseThrows :: "res_call list \<Rightarrow> jsval \<Rightarrow> bool" where
  "sendResponseThrows res output =
     (case output of
        ResponseElement props \<Rightarrow> snd (issue res (responseCalls props))
      | _ \<Rightarrow> False)"

section \<open>The ambient context store\<close>

text \<open>The fields of the transport's request object that the engine reads.\<close>

record request =
  req_method :: string
  req_path :: string
  req_originalUrl :: string
  req_params :: jsval
  req_query :: jsval
  req_body :: jsval
  req_headers :: jsval

text \<open>
  \<^verbatim>\<open>routeContext\<close>: the structured fields and the \<^verbatim>\<open>middlewareContext\<close> map.  Its
  \<^verbatim>\<open>req\<close> and \<^verbatim>\<open>res\<close> are the request being served and the response of the state.
\<close>

record route_context =
  params :: jsval
  query :: jsval
  body :: jsval
  middlewareContext :: "string \<rightharpoonup> jsval"

text \<open>
  The state a request is served in: the module-level \<^verbatim>\<open>routeContext\<close> (\<open>None\<close> is
  \<^verbatim>\<open>null\<close>) and \<^verbatim>\<open>globalContext\<close>, the calls made on the response, and the
  \<^verbatim>\<open>middlewareIndex\<close> of the handler's closure.  \<open>invoked\<close> is not in the source:
  it records which functions the engine has called, in order (\<open>Some i\<close> for the
  middleware at index \<open>i\<close> of the chain, \<open>None\<close> for the route handler).
\<close>

record state =
  routeContext :: "route_context option"
  globalContext :: "string \<rightharpoonup> jsval"
  res :: "res_call list"
  middlewareIndex :: nat
  invoked :: "nat option list"

text \<open>\<^verbatim>\<open>Map.prototype.get\<close>: a missing key reads as \<^verbatim>\<open>undefined\<close>.\<close>

definition mapGet :: "(string \<rightharpoonup> jsval) \<Rightarrow> string \<Rightarrow> jsval" where
  "mapGet m k = (case m k of None \<Rightarrow> Undefined | Some v \<Rightarrow> v)"

definition useSetContext :: "string \<Rightarrow> jsval \<Rightarrow> state \<Rightarrow> state" where
  "useSetContext resolvedKey v s =
     (case routeContext s of
        Some rc \<Rightarrow>
          (let rc1 = rc\<lparr>middlewareContext := (middlewareContext rc)(resolvedKey \<mapsto> v)\<rparr>;
               rc2 = (if resolvedKey = ''body'' then rc1\<lparr>body := v\<rparr>
                      else if resolvedKey = ''query'' then rc1\<lparr>query := v\<rparr>
                      else if resolvedKey = ''params'' then rc1\<lparr>params := v\<rparr>
                      else rc1)
           in s\<lparr>routeContext := Some rc2\<rparr>)
      | None \<Rightarrow> s\<lparr>globalContext := (globalContext s)(resolvedKey \<mapsto> v)\<rparr>)"

text \<open>\<^verbatim>\<open>useContext(key)\<close>, the key-based access.\<close>

definition useContext :: "string \<Rightarrow> state \<Rightarrow> jsval" where
  "useContext resolvedKey s =
     (case routeContext s of
        Some rc \<Rightarrow>
          (let routeValue = mapGet (middlewareContext rc) resolvedKey
           in if routeValue \<noteq> Undefined then routeValue
              else mapGet (globalContext s) resolvedKey)
      | None \<Rightarrow> mapGet (globalContext s) resolvedKey)"

text \<open>\<^verbatim>\<open>useRoute()\<close>: the active scope; outside a request it throws (\<open>None\<close>).\<close>

definition useRoute :: "state \<Rightarrow> route_context option" where
  "useRoute s = routeContext s"

section \<open>Middleware and handler functions\<close>

text \<open>
  A middleware \<^verbatim>\<open>(req, next, res) => any\<close> and a handler \<^verbatim>\<open>() => any\<close> are code of
  the application.  What such a function can do to the engine is: return a value,
  throw, call \<^verbatim>\<open>next()\<close> and go on with what it gave (a value, or an exception it may
  catch), write and read the context, and make a call on \<^verbatim>\<open>res\<close>.  A function is the
  tree of the steps it takes on the request at hand; a promise is awaited where it
  is made.  The run of a function below follows one request with no other request
  in flight.  While a function awaits a timer or I/O the handler of another request
  may run on the same module-level \<^verbatim>\<open>routeContext\<close>: such a run is the run of the
  first request up to the await, the steps of the other request on the state it
  left, and the rest of the first request on the state that the other one left.
\<close>

datatype outcome = Returned jsval | Thrown jsval

datatype prog =
    Return jsval
  | Throw jsval
  | Next "outcome \<Rightarrow> prog"
  | SetContext string jsval prog
  | GetContext string "jsval \<Rightarrow> prog"
  | ResCall res_call prog

text \<open>
  \<open>run p nxt s\<close> runs a function body in state \<open>s\<close> with \<open>nxt\<close> as its \<^verbatim>\<open>next\<close>.
  \<open>None\<close> is only ever the \<open>None\<close> of \<open>nxt\<close>.
\<close>

primrec run :: "prog \<Rightarrow> (state \<Rightarrow> (outcome \<times> state) option) \<Rightarrow> state \<Rightarrow> (outcome \<times> state) option"
where
  "run (Return v) nxt s = Some (Returned v, s)"
| "run (Throw e) nxt s = Some (Thrown e, s)"
| "run (Next k) nxt s =
     (case nxt s of None \<Rightarrow> None | Some (r, s') \<Rightarrow> run (k r) nxt s')"
| "run (SetContext key v p) nxt s = run p nxt (useSetContext key v s)"
| "run (GetContext key k) nxt s = run (k (useContext key s)) nxt s"
| "run (ResCall c p) nxt s = run p nxt (s\<lparr>res := res s @ [c]\<rparr>)"

text \<open>
  A handler is called with no argument: it has no \<^verbatim>\<open>next\<close>, and calling one is a
  \<^verbatim>\<open>TypeError\<close>.
\<close>

definition callHandler :: "prog \<Rightarrow> state \<Rightarrow> (outcome \<times> state) option" where
  "callHandler h s =
     run h (\<lambda>s'. Some (Thrown (String ''TypeError''), s')) (s\<lparr>invoked := invoked s @ [None]\<rparr>)"

text \<open>
  \<open>executeNextMiddleware\<close>, the closure over \<^verbatim>\<open>middlewareIndex\<close>.  A middleware may
  call it from inside its own run, so the recursion is on the depth of such calls:
  \<open>n\<close> bounds the depth, and \<open>None\<close> means the bound was too small.
\<close>

primrec executeNextMiddleware ::
    "nat \<Rightarrow> prog list \<Rightarrow> prog \<Rightarrow> state \<Rightarrow> (outcome \<times> state) option" where
  "executeNextMiddleware 0 mws h s =
     (if middlewareIndex s \<ge> length mws then callHandler h s else None)"
| "executeNextMiddleware (Suc n) mws h s =
     (if middlewareIndex s \<ge> length mws then callHandler h s
      else run (mws ! middlewareIndex s) (executeNextMiddleware n mws h)
             (s\<lparr>middlewareIndex := middlewareIndex s + 1,
                invoked := invoked s @ [Some (middlewareIndex s)]\<rparr>))"


section \<open>The dispatch engine\<close>

text \<open>\<^verbatim>\<open>routeContext.middlewareContext.set(k, v)\<close>, as the engine seeds the scope.\<close>

definition seed :: "string \<Rightarrow> jsval \<Rightarrow> state \<Rightarrow> state" where
  "seed k v s =
     (case routeContext s of
        None \<Rightarrow> s
      | Some rc \<Rightarrow> s\<lparr>routeContext := Some (rc\<lparr>middlewareContext := (middlewareContext rc)(k \<mapsto> v)\<rparr>)\<rparr>)"

definition openScope :: "request \<Rightarrow> state \<Rightarrow> state" where
  "openScope req s =
     s\<lparr>routeContext := Some \<lparr>params = req_params req, query = req_query req,
                              body = req_body req, middlewareContext = Map.empty\<rparr>\<rparr>"

definition seedContext :: "request \<Rightarrow> state \<Rightarrow> state" where
  "seedContext req s =
     (seed ''body'' (req_body req) \<circ> seed ''query'' (req_query req) \<circ>
      seed ''headers'' (req_headers req) \<circ> seed ''method'' (String (req_method req)) \<circ>
      seed ''path'' (String (req_path req)) \<circ> seed ''params'' (req_params req) \<circ>
      seed ''res'' ResObject \<circ> seed ''req'' ReqObject) s"

definition seedSchema :: "string \<Rightarrow> schema option \<Rightarrow> state \<Rightarrow> state" where
  "seedSchema k sch s = (case sch of None \<Rightarrow> s | Some x \<Rightarrow> seed k (SchemaObject x) s)"

definition internalServerError :: json where
  "internalServerError = JObj [(''error'', JStr ''Internal server error'')]"

text \<open>
  The end of the \<^verbatim>\<open>try\<close> block with its \<^verbatim>\<open>catch\<close> and \<^verbatim>\<open>finally\<close>: a returned output
  is normalised; an error thrown by the chain, or by the normalisation, is answered
  with the fixed 500 body unless the response was sent; and \<^verbatim>\<open>routeContext\<close> is set
  to \<^verbatim>\<open>null\<close>.
\<close>

definition caught :: "res_call list \<Rightarrow> res_call list" where
  "caught calls =
     (if \<not> headersSent calls then calls @ [Status 500, Json internalServerError] else calls)"

definition finish :: "outcome \<times> state \<Rightarrow> state" where
  "finish rs =
     (case rs of
        (Returned output, s) \<Rightarrow>
          s\<lparr>res := (if sendResponseThrows (res s) output
                     then caught (sendResponseFromOutput (res s) output)
                     else sendResponseFromOutput (res s) output),
            routeContext := None\<rparr>
      | (Thrown e, s) \<Rightarrow>
          s\<lparr>res := (if \<not> headersSent (res s)
                     then res s @ [Status 500, Json internalServerError] else res s),
            routeContext := None\<rparr>)"

text \<open>
  The scope that the handler \<^verbatim>\<open>wrapped\<close> opens before the chain runs: the new
  \<^verbatim>\<open>routeContext\<close>, the seeded entries, the schemas of the route, and
  \<^verbatim>\<open>middlewareIndex = 0\<close>.
\<close>

definition enterScope :: "schema option \<Rightarrow> schema option \<Rightarrow> request \<Rightarrow> state \<Rightarrow> state" where
  "enterScope bodySch querySch req s =
     (let s1 = openScope req s;
          s2 = seedContext req s1;
          s3 = seedSchema ''_bodySchema'' bodySch s2;
          s4 = seedSchema ''_querySchema'' querySch s3
      in s4\<lparr>middlewareIndex := 0, invoked := []\<rparr>)"

text \<open>
  The handler \<^verbatim>\<open>wrapped\<close> that \<open>createExpressHandler\<close> returns, run on a request.  The
  depth given to \<open>executeNextMiddleware\<close> is the length of the chain.
\<close>

definition createExpressHandler ::
    "prog \<Rightarrow> prog list \<Rightarrow> schema option \<Rightarrow> schema option \<Rightarrow> request \<Rightarrow> state \<Rightarrow> state option"
where
  "createExpressHandler h mws bodySch querySch req s =
     map_option finish
       (executeNextMiddleware (length mws) mws h (enterScope bodySch querySch req s))"

text \<open>What a layer of the transport's stack does with a request.\<close>

datatype handled = Responded state | PassedOn

text \<open>
  \<open>methodSpecificWildcardHandler\<close> of a wildcard route: the same scope, with no
  schema stored.
\<close>

definition methodSpecificWildcardHandler ::
    "(prog, prog) route \<Rightarrow> request \<Rightarrow> state \<Rightarrow> handled option" where
  "methodSpecificWildcardHandler route req s =
     (if route_method route = ''all'' \<or> toLowerCase (req_method req) = route_method route then
        map_option (Responded \<circ> finish)
          (executeNextMiddleware (length (middlewares route)) (middlewares route)
             (handler route) (enterScope None None req s))
      else Some PassedOn)"

text \<open>The index \<^verbatim>\<open>methodsByPath\<close>, built by the loop over the regular routes.\<close>

definition addMethod ::
    "(string \<rightharpoonup> string list) \<Rightarrow> ('m, 'h) route \<Rightarrow> (string \<rightharpoonup> string list)" where
  "addMethod m route =
     (let ms = (case m (path route) of None \<Rightarrow> [] | Some xs \<Rightarrow> xs)
      in if toUpperCase (route_method route) \<in> set ms then m(path route \<mapsto> ms)
         else m(path route \<mapsto> ms @ [toUpperCase (route_method route)]))"

definition methodsByPath :: "('m, 'h) route list \<Rightarrow> (string \<rightharpoonup> string list)" where
  "methodsByPath regularRoutes = foldl addMethod Map.empty regularRoutes"

text \<open>\<^verbatim>\<open>xs.join(sep)\<close>\<close>

fun join :: "string \<Rightarrow> string list \<Rightarrow> string" where
  "join sep [] = []"
| "join sep [x] = x"
| "join sep (x # y # ys) = x @ sep @ join sep (y # ys)"

text \<open>The catch-all registered after the routes: the 405 answer, or \<^verbatim>\<open>next()\<close>.\<close>

definition methodNotAllowed ::
    "(string \<rightharpoonup> string list) \<Rightarrow> request \<Rightarrow> state \<Rightarrow> handled" where
  "methodNotAllowed byPath req s =
     (case byPath (req_path req) of
        None \<Rightarrow> PassedOn
      | Some allowed \<Rightarrow>
          if req_method req \<notin> set allowed then
            Responded (s\<lparr>res := res s @
              [SetHeader ''Allow'' (join '', '' allowed),
               Status 405,
               Json (JObj
                 [(''error'', JStr ''Method Not Allowed''),
                  (''message'', JStr (''Method '' @ req_method req @
                      '' is not allowed for path '' @ req_path req)),
                  (''path'', JStr (req_path req)),
                  (''method'', JStr (req_method req))])]\<rparr>)
          else PassedOn)"

text \<open>The default 404 handler, registered when there is no wildcard route.\<close>

definition notFound :: "request \<Rightarrow> state \<Rightarrow> handled" where
  "notFound req s =
     Responded (s\<lparr>res := res s @
       [Status 404,
        Json (JObj
          [(''error'', JStr ''Not Found''),
           (''message'', JStr (''Route '' @ req_method req @ '' '' @
               req_originalUrl req @ '' not found'')),
           (''path'', JStr (req_originalUrl req)),
           (''method'', JStr (req_method req))])]\<rparr>)"

text \<open>
  What \<^verbatim>\<open>serve\<close> registers on the transport, in order: one layer for each regular
  route whose method has a registrar, the 405 catch-all, and either one layer for
  each wildcard route or the 404 handler.
\<close>

datatype layer =
    RouteLayer "(prog, prog) route"
  | MethodNotAllowedLayer "string \<rightharpoonup> string list"
  | WildcardLayer "(prog, prog) route"
  | NotFoundLayer

definition registrar :: "string list" where
  "registrar = [''get'', ''post'', ''put'', ''patch'', ''delete'', ''options'', ''head'', ''all'']"

definition registerAll :: "(prog, prog) route list \<Rightarrow> layer list" where
  "registerAll rs =
     (let regularRoutes = filter (\<lambda>r. path r \<noteq> ''*'') rs;
          wildcardRoutes = filter (\<lambda>r. path r = ''*'') rs
      in map RouteLayer (filter (\<lambda>r. toLowerCase (route_method r) \<in> set registrar) regularRoutes) @
         [MethodNotAllowedLayer (methodsByPath regularRoutes)] @
         (if wildcardRoutes \<noteq> [] then map WildcardLayer wildcardRoutes else [NotFoundLayer]))"

record server =
  listening :: nat
  layers :: "layer list"

definition serve :: "(prog, prog) element \<Rightarrow> error + server" where
  "serve element =
     (case compile element of
        Inl e \<Rightarrow> Inl e
      | Inr st \<Rightarrow> Inr \<lparr>listening = listenPort st, layers = registerAll (routes st)\<rparr>)"

section \<open>The transport's routing\<close>

text \<open>
  How the transport picks a route layer is the collaborator's business.  Its rule for
  the method: a layer registered with \<^verbatim>\<open>app.all\<close> takes every method, one registered
  with \<^verbatim>\<open>app.get\<close> also takes \<^verbatim>\<open>HEAD\<close>, any other takes its own method.  Its rule for the
  path is the parameter \<open>pathMatch\<close> of \<open>dispatch\<close>.
\<close>

definition methodMatch :: "string \<Rightarrow> string \<Rightarrow> bool" where
  "methodMatch layerMethod reqMethod =
     (layerMethod = ''all'' \<or> toLowerCase reqMethod = layerMethod \<or>
      (toLowerCase reqMethod = ''head'' \<and> layerMethod = ''get''))"

text \<open>
  \<open>dispatch\<close> walks the stack: the first layer that does not pass the request on
  answers it.  \<open>Some PassedOn\<close> means every layer passed it on.
\<close>

fun dispatch ::
    "(string \<Rightarrow> string \<Rightarrow> bool) \<Rightarrow> layer list \<Rightarrow> request \<Rightarrow> state \<Rightarrow> handled option" where
  "dispatch pathMatch [] req s = Some PassedOn"
| "dispatch pathMatch (RouteLayer r # ls) req s =
     (if methodMatch (toLowerCase (route_method r)) (req_method req) \<and> pathMatch (path r) (req_path req)
      then map_option Responded
             (createExpressHandler (handler r) (middlewares r) (bodySchema r) (querySchema r) req s)
      else dispatch pathMatch ls req s)"
| "dispatch pathMatch (MethodNotAllowedLayer byPath # ls) req s =
     (case methodNotAllowed byPath req s of
        PassedOn \<Rightarrow> dispatch pathMatch ls req s
      | h \<Rightarrow> Some h)"
| "dispatch pathMatch (WildcardLayer r # ls) req s =
     (case methodSpecificWildcardHandler r req s of
        Some PassedOn \<Rightarrow> dispatch pathMatch ls req s
      | h \<Rightarrow> h)"
| "dispatch pathMatch (NotFoundLayer # ls) req s = Some (notFound req s)"

text \<open>
  A path matcher to run \<open>dispatch\<close> with: the transport compares a route path and a
  request path segment by segment, and a pattern segment \<^verbatim>\<open>:name\<close> takes any
  non-empty segment.  (Patterns with regular expressions or optional parts are not
  covered.)
\<close>

fun splitOn :: "char \<Rightarrow> string \<Rightarrow> string list" where
  "splitOn c [] = [[]]"
| "splitOn c (x # xs) =
     (if x = c then [] # splitOn c xs
      else case splitOn c xs of [] \<Rightarrow> [[x]] | y # ys \<Rightarrow> (x # y) # ys)"

fun segmentMatch :: "string \<Rightarrow> string \<Rightarrow> bool" where
  "segmentMatch (p # ps) seg = (if p = CHR '':'' then seg \<noteq> [] else p # ps = seg)"
| "segmentMatch [] seg = (seg = [])"

definition paramPathMatch :: "string \<Rightarrow> string \<Rightarrow> bool" where
  "paramPathMatch pattern reqPath =
     list_all2 segmentMatch (splitOn CHR ''/'' pattern) (splitOn CHR ''/'' reqPath)"

section \<open>The middleware contract of the spec\<close>

text \<open>
  The spec asks of a middleware that it either calls the continuation and
  propagates its result, or returns a value directly.  Whether a function does
  the one or the other may depend on what it reads from the context, so both are
  said of a function in the state it is invoked in.

  \<open>forward\<close> is the rest of the body \<^verbatim>\<open>return next()\<close> after the call.
  \<open>preState m s\<close> is the state that the work of \<open>m\<close> on the context and the response
  leaves, up to its first call of \<^verbatim>\<open>next\<close> or its end.
  \<open>ends p r s\<close> says that \<open>p\<close>, run in \<open>s\<close>, works on the context and the response and
  ends with the outcome \<open>r\<close> without a call of \<^verbatim>\<open>next\<close>; with \<open>r = Returned v\<close> this is
  a function that returns \<open>v\<close> directly.
  \<open>passesAt m s\<close> says that \<open>m\<close>, run in \<open>s\<close>, works on the context and the response,
  calls \<^verbatim>\<open>next\<close> once, and then ends with the outcome that \<^verbatim>\<open>next\<close> gave, whatever
  it is, without a second call.
\<close>

fun forward :: "outcome \<Rightarrow> prog" where
  "forward (Returned v) = Return v"
| "forward (Thrown e) = Throw e"

primrec preState :: "prog \<Rightarrow> state \<Rightarrow> state" where
  "preState (Return v) s = s"
| "preState (Throw e) s = s"
| "preState (Next k) s = s"
| "preState (SetContext key v p) s = preState p (useSetContext key v s)"
| "preState (GetContext key k) s = preState (k (useContext key s)) s"
| "preState (ResCall c p) s = preState p (s\<lparr>res := res s @ [c]\<rparr>)"

primrec ends :: "prog \<Rightarrow> outcome \<Rightarrow> state \<Rightarrow> bool" where
  "ends (Return v) r s = (r = Returned v)"
| "ends (Throw e) r s = (r = Thrown e)"
| "ends (Next k) r s = False"
| "ends (SetContext key v p) r s = ends p r (useSetContext key v s)"
| "ends (GetContext key k) r s = ends (k (useContext key s)) r s"
| "ends (ResCall c p) r s = ends p r (s\<lparr>res := res s @ [c]\<rparr>)"

primrec passesAt :: "prog \<Rightarrow> state \<Rightarrow> bool" where
  "passesAt (Return v) s = False"
| "passesAt (Throw e) s = False"
| "passesAt (Next k) s = (\<forall>r s'. ends (k r) r s')"
| "passesAt (SetContext key v p) s = passesAt p (useSetContext key v s)"
| "passesAt (GetContext key k) s = passesAt (k (useContext key s)) s"
| "passesAt (ResCall c p) s = passesAt p (s\<lparr>res := res s @ [c]\<rparr>)"

text \<open>
  \<open>enter s\<close> is the step of \<open>executeNextMiddleware\<close> that takes the next middleware.
  \<open>entryState mws i s\<close> is the state in which the \<open>i\<close>-th middleware after
  \<^verbatim>\<open>middlewareIndex\<close> is invoked when the run starts in \<open>s\<close> and the middlewares
  before it call \<^verbatim>\<open>next\<close>.
\<close>

definition enter :: "state \<Rightarrow> state" where
  "enter s = s\<lparr>middlewareIndex := middlewareIndex s + 1,
               invoked := invoked s @ [Some (middlewareIndex s)]\<rparr>"

fun entryState :: "prog list \<Rightarrow> nat \<Rightarrow> state \<Rightarrow> state" where
  "entryState mws 0 s = enter s"
| "entryState mws (Suc i) s =
     entryState mws i (preState (mws ! middlewareIndex s) (enter s))"

text \<open>
  \<open>inOrder n s\<close>, for a chain of \<open>n\<close> middlewares: the functions invoked so far are
  the middlewares \<open>0, 1, ...\<close> up to \<^verbatim>\<open>middlewareIndex\<close>, each once and in this order,
  followed by the calls of the handler, and the handler was called only after all
  \<open>n\<close> middlewares.
\<close>

definition inOrder :: "nat \<Rightarrow> state \<Rightarrow> bool" where
  "inOrder n s =
     (middlewareIndex s \<le> n \<and>
      invoked s = map Some [0..<middlewareIndex s] @
                  replicate (length (invoked s) - middlewareIndex s) None \<and>
      (middlewareIndex s < length (invoked s) \<longrightarrow> middlewareIndex s = n))"

text \<open>
  A route layer takes a request when the transport matches its method and its
  path; a wildcard layer takes it when its method is \<^verbatim>\<open>all\<close> or the method of the
  request.  \<open>registered rs\<close> are the routes that \<open>registerAll\<close> gives a route layer.
\<close>

definition takes :: "(string \<Rightarrow> string \<Rightarrow> bool) \<Rightarrow> ('m, 'h) route \<Rightarrow> request \<Rightarrow> bool" where
  "takes pathMatch r req =
     (methodMatch (toLowerCase (route_method r)) (req_method req) \<and>
      pathMatch (path r) (req_path req))"

definition wildcardTakes :: "('m, 'h) route \<Rightarrow> request \<Rightarrow> bool" where
  "wildcardTakes r req =
     (route_method r = ''all'' \<or> toLowerCase (req_method req) = route_method r)"

definition registered :: "('m, 'h) route list \<Rightarrow> ('m, 'h) route list" where
  "registered rs =
     filter (\<lambda>r. toLowerCase (route_method r) \<in> set registrar)
       (filter (\<lambda>r. path r \<noteq> ''*'') rs)"

definition wildcards :: "('m, 'h) route list \<Rightarrow> ('m, 'h) route list" where
  "wildcards rs = filter (\<lambda>r. path r = ''*'') rs"

section \<open>What the spec says of a compiled route\<close>

text \<open>
  The spec describes a compiled route by the nodes around its Route node.  A
  \<open>frame\<close> is one enclosing App or RouteGroup node: an App node gives its
  middlewares, a RouteGroup node its \<^verbatim>\<open>prefix\<close> prop and its middlewares (those of its
  \<^verbatim>\<open>middleware\<close> prop, then those of its Middleware children).

  These definitions do not use the functions of the compiler: \<open>declared\<close> is the
  list of middlewares that a prop declares, in the order of the declaration;
  \<open>members\<close> are the direct children of a node; \<open>useOf\<close> is what a direct child
  contributes to its group as a Middleware node.
\<close>

datatype 'm frame =
    AppFrame "'m list"
  | GroupFrame "string option" "'m list"

fun framePrefix :: "'m frame \<Rightarrow> string" where
  "framePrefix (AppFrame ms) = []"
| "framePrefix (GroupFrame None ms) = []"
| "framePrefix (GroupFrame (Some p) ms) = p"

fun frameMiddlewares :: "'m frame \<Rightarrow> 'm list" where
  "frameMiddlewares (AppFrame ms) = ms"
| "frameMiddlewares (GroupFrame p ms) = ms"

definition under ::
    "'m frame \<Rightarrow> 'm frame list \<times> ('m, 'h) route \<Rightarrow> 'm frame list \<times> ('m, 'h) route" where
  "under f x = (f # fst x, snd x)"

definition declared :: "'m mw_prop \<Rightarrow> 'm list" where
  "declared p = (case p of MwUndefined \<Rightarrow> [] | MwFn f \<Rightarrow> [f] | MwArr fs \<Rightarrow> fs)"

definition isMiddleware :: "('m, 'h) element \<Rightarrow> bool" where
  "isMiddleware c =
     (case c of Middleware u \<Rightarrow> True
              | Component name u r \<Rightarrow> name = ''Middleware''
              | _ \<Rightarrow> False)"

definition useOf :: "('m, 'h) element \<Rightarrow> 'm list" where
  "useOf c =
     (case c of Middleware u \<Rightarrow> declared u
              | Component name u r \<Rightarrow> (if name = ''Middleware'' then declared u else [])
              | _ \<Rightarrow> [])"

definition members :: "('m, 'h) element \<Rightarrow> ('m, 'h) element list" where
  "members c = (case c of Nullish \<Rightarrow> [] | Fragment cs \<Rightarrow> cs | _ \<Rightarrow> [c])"

lemma size_members: "size_list size (members c) \<le> Suc (size c)"
  by (cases c) (simp_all add: members_def)

text \<open>
  \<open>enclosed el\<close> lists the Route nodes of a tree that have a path and a handler, in
  document order: each with the frames around it, outermost first, and with its
  own data (its own path literal, its own middlewares, its method in lower case).
  Function components and other containers are looked through; the Middleware
  children of a group are not routes.
\<close>

function (sequential) enclosed ::
    "('m, 'h) element \<Rightarrow> ('m frame list \<times> ('m, 'h) route) list"
  and enclosedEach ::
    "('m, 'h) element list \<Rightarrow> ('m frame list \<times> ('m, 'h) route) list"
  and enclosedGroup ::
    "('m, 'h) element list \<Rightarrow> ('m frame list \<times> ('m, 'h) route) list"
where
  "enclosed (Fragment els) = enclosedEach els"
| "enclosed (Component name u result) = enclosed result"
| "enclosed (App pport pcors pmw children) =
     map (under (AppFrame (declared pmw))) (enclosed children)"
| "enclosed (RouteGroup pprefix pmw children) =
     map (under (GroupFrame pprefix
                   (declared pmw @ concat (map useOf (members children)))))
       (enclosedGroup (members children))"
| "enclosed (Route ppath pmethod pmw pchildren pquery pbody) =
     (if truthy_str ppath \<and> pchildren \<noteq> None then
        [([], \<lparr>route_method = toLowerCase (the pmethod), path = the ppath,
               handler = the pchildren, middlewares = declared pmw,
               querySchema = pquery, bodySchema = pbody\<rparr>)]
      else [])"
| "enclosed (Container children) = enclosed children"
| "enclosed _ = []"
| "enclosedEach [] = []"
| "enclosedEach (el # els) = enclosed el @ enclosedEach els"
| "enclosedGroup [] = []"
| "enclosedGroup (c # cs) =
     (if isMiddleware c then enclosedGroup cs else enclosed c @ enclosedGroup cs)"
  by pat_completeness auto

termination
proof (relation "measure (\<lambda>x. case x of
          Inl e \<Rightarrow> 2 * size e + 1
        | Inr (Inl es) \<Rightarrow> 2 * size_list size es
        | Inr (Inr es) \<Rightarrow> 2 * size_list size es)", goal_cases)
  case (5 pprefix pmw children)
  show ?case using size_members [of children] by simp
qed simp_all

text \<open>
  The RouteDefinition the spec expects for such a node, compiled from the prefix
  \<open>pathPrefix\<close> and the chain \<open>mws\<close>: the prefixes of the enclosing groups in
  nesting order and then the path literal; the middlewares of the enclosing nodes in
  nesting order and then those of the Route node.
\<close>

definition expected ::
    "string \<Rightarrow> 'm list \<Rightarrow> 'm frame list \<times> ('m, 'h) route \<Rightarrow> ('m, 'h) route" where
  "expected pathPrefix mws x =
     (snd x)\<lparr>path := pathPrefix @ concat (map framePrefix (fst x)) @ path (snd x),
             middlewares := mws @ concat (map frameMiddlewares (fst x)) @ middlewares (snd x)\<rparr>"

section \<open>A server at rest and a plain request\<close>

text \<open>
  The state before any request: no active scope, an empty process-wide store, a
  response on which no call was made.  \<open>plainRequest m p\<close> is a request of method
  \<open>m\<close> for the path \<open>p\<close> with empty parameters, query and headers and no body.
\<close>

definition idle :: state where
  "idle = \<lparr>routeContext = None, globalContext = Map.empty, res = [],
            middlewareIndex = 0, invoked = []\<rparr>"

definition plainRequest :: "string \<Rightarrow> string \<Rightarrow> request" where
  "plainRequest m p =
     \<lparr>req_method = m, req_path = p, req_originalUrl = p, req_params = Object (JObj []),
      req_query = Object (JObj []), req_body = Undefined, req_headers = Object (JObj [])\<rparr>"

section \<open>Properties of the compiler\<close>

text \<open>
  C6.  The spec says that \<^verbatim>\<open>serve\<close> listens on port 6969 when the App node gives no
  port.  The App case of \<^verbatim>\<open>processElement\<close> stores \<^verbatim>\<open>props.port || 9000\<close>, so the
  fallback \<^verbatim>\<open>appConfig.port || 6969\<close> of \<^verbatim>\<open>serve\<close> is never taken for a tree with an
  App node: an App node without a port, around one route, listens on 9000; the same
  route without the App node listens on 6969.
\<close>

theorem app_without_port_listens_on_9000:
  "servePort (App None None MwUndefined
       (Route (Some ''/'') (Some ''GET'') MwUndefined (Some h) None None)) = Inr 9000
   \<and> servePort (Route (Some ''/'') (Some ''GET'') MwUndefined (Some h) None None) = Inr 6969"
  by (simp add: servePort_def compile_def emptyStore_def listenPort_def)

text \<open>
  C10.  A Route node without a path (or with the empty path) or without a handler
  is skipped: the store is returned as it was and nothing is thrown, whatever its
  method and body schema are.
\<close>

theorem route_without_path_or_handler_skipped:
  assumes "\<not> truthy_str ppath \<or> pchildren = None"
  shows "processElement (Route ppath pmethod pmw pchildren pquery pbody) pathPrefix mws st
           = Inr st"
  using assms by auto

theorem route_without_path_or_handler_skipped_witness:
  "processElement (Route None None MwUndefined (Some (Return Undefined)) None
       (Some (Schema ''s''))) ''/api'' [] emptyStore = Inr emptyStore
   \<and> processElement (Route (Some ''/x'') (Some ''GET'') MwUndefined None None
       (Some (Schema ''s''))) ''/api'' [] (emptyStore :: (prog, prog) store) = Inr emptyStore"
  using route_without_path_or_handler_skipped
          [of None "Some (Return Undefined)" None MwUndefined None "Some (Schema ''s'')"
              "''/api''" "[]" emptyStore]
        route_without_path_or_handler_skipped
          [of "Some ''/x''" None "Some ''GET''" MwUndefined None "Some (Schema ''s'')"
              "''/api''" "[]" "emptyStore :: (prog, prog) store"]
  by simp

text \<open>
  C5, as the spec states it, for every Route node with a body schema: it fails on
  a Route node that has a body schema and the method GET but no path, which is
  skipped before the check and compiles.
\<close>

theorem body_schema_get_without_path_compiles:
  "processElement (Route None (Some ''GET'') MwUndefined (Some (Return Undefined)) None
       (Some (Schema ''s''))) [] [] emptyStore = Inr emptyStore"
  by simp

text \<open>
  C5, amended: for a Route node with a non-empty path, a handler and a body schema,
  compilation succeeds only if its method is given and, upper-cased, is one of POST,
  PUT, PATCH, DELETE; any other given method, GET in particular, throws the
  body-schema error, and no route is emitted.
\<close>

theorem body_schema_requires_body_method:
  assumes "truthy_str ppath" and "pchildren \<noteq> None" and "pbody \<noteq> None"
  shows
    "((\<exists>st'. processElement (Route ppath pmethod pmw pchildren pquery pbody) pathPrefix mws st
               = Inr st')
        \<longrightarrow> truthy_str pmethod \<and> toUpperCase (the pmethod) \<in> set bodyAllowedMethods)
     \<and> (truthy_str pmethod \<and> toUpperCase (the pmethod) \<notin> set bodyAllowedMethods
        \<longrightarrow> processElement (Route ppath pmethod pmw pchildren pquery pbody) pathPrefix mws st
              = Inl (BodyNotAllowed (toUpperCase (the pmethod)) (pathPrefix @ the ppath)))
     \<and> (pmethod = Some ''GET''
        \<longrightarrow> processElement (Route ppath pmethod pmw pchildren pquery pbody) pathPrefix mws st
              = Inl (BodyNotAllowed ''GET'' (pathPrefix @ the ppath)))"
  using assms
  by (auto simp: Let_def toUpperCase_def upperChar_def bodyAllowedMethods_def)

theorem body_schema_requires_body_method_witness:
  "processElement (Route (Some ''/x'') (Some ''GET'') MwUndefined (Some (Return Undefined))
       None (Some (Schema ''s''))) ''/api'' [] emptyStore
     = Inl (BodyNotAllowed ''GET'' ''/api/x'')"
  using body_schema_requires_body_method
          [of "Some ''/x''" "Some (Return Undefined)" "Some (Schema ''s'')" "Some ''GET''"
              MwUndefined None "''/api''" "[]" emptyStore]
  by (simp add: toUpperCase_def upperChar_def bodyAllowedMethods_def)

section \<open>Properties of the output normalisation\<close>

lemma headersSent_append [simp]: "headersSent (xs @ ys) = (headersSent xs \<or> headersSent ys)"
  by (simp add: headersSent_def list_ex_iff) blast

lemma headersSent_simps [simp]:
  "headersSent [] = False"
  "headersSent (c # cs) = (sends c \<or> headersSent cs)"
  by (simp_all add: headersSent_def)

lemma issue_take:
  "\<exists>k\<le>length cs. issue calls cs = (calls @ take k cs, k < length cs)"
proof (induction cs arbitrary: calls)
  case Nil
  show ?case by simp
next
  case (Cons c cs)
  show ?case
  proof (cases "accepts calls c")
    case True
    from Cons.IH [of "calls @ [c]"] obtain k where
      "k \<le> length cs" "issue (calls @ [c]) cs = ((calls @ [c]) @ take k cs, k < length cs)"
      by blast
    with True show ?thesis by (intro exI [of _ "Suc k"]) simp
  next
    case False
    then show ?thesis by (intro exI [of _ 0]) simp
  qed
qed

lemma issue_quiet:
  assumes "\<not> headersSent calls" and "\<forall>c \<in> set hs. \<not> sends c \<and> accepts [] c"
  shows "issue calls (hs @ cs) = issue (calls @ hs) cs"
  using assms
proof (induction hs arbitrary: calls)
  case Nil
  show ?case by simp
next
  case (Cons h hs)
  from Cons.prems have a: "accepts calls h"
    by (cases h) simp_all
  from Cons.prems have "\<not> headersSent (calls @ [h])" by simp
  from Cons.IH [OF this] Cons.prems a show ?case by simp
qed


lemma setHeaders_quiet:
  assumes "\<forall>(h, v) \<in> set (case hs of None \<Rightarrow> [] | Some kvs \<Rightarrow> kvs).
             validHeaderName h \<and> validHeaderValue v"
  shows "\<forall>c \<in> set (setHeaders hs). \<not> sends c \<and> accepts [] c"
  using assms by (cases hs) (auto simp: setHeaders_def)

lemma sends_setHeaders: "filter sends (setHeaders hs) = []"
  by (cases hs) (auto simp: setHeaders_def filter_empty_conv)

lemma sends_setStatus: "filter sends (setStatus st) = []"
  by (simp add: setStatus_def)

lemma branchCalls_last:
  "branchCalls props \<noteq> [] \<and> sends (last (branchCalls props)) \<and>
   filter sends (butlast (branchCalls props)) = []"
  by (simp add: branchCalls_def setStatus_def)

lemma responseCalls_last:
  "responseCalls props \<noteq> [] \<and> sends (last (responseCalls props)) \<and>
   filter sends (butlast (responseCalls props)) = []"
  using branchCalls_last [of props]
  by (simp add: responseCalls_def butlast_append sends_setHeaders)

lemma issue_accepted:
  assumes "\<not> headersSent calls"
    and "\<forall>(h, v) \<in> set (case rheaders props of None \<Rightarrow> [] | Some kvs \<Rightarrow> kvs).
           validHeaderName h \<and> validHeaderValue v"
    and "truthy_num (rstatus props) \<longrightarrow> validStatus (the (rstatus props))"
  shows "issue calls (responseCalls props) = (calls @ responseCalls props, False)"
proof -
  let ?hs = "setHeaders (rheaders props)"
  have q: "\<not> headersSent (calls @ ?hs)"
    using assms(1) sends_setHeaders [of "rheaders props"]
    by (auto simp: headersSent_def list_ex_iff filter_empty_conv)
  have "issue calls (responseCalls props) = issue (calls @ ?hs) (branchCalls props)"
    unfolding responseCalls_def
    by (rule issue_quiet [OF assms(1) setHeaders_quiet [OF assms(2)]])
  also have "\<dots> = ((calls @ ?hs) @ branchCalls props, False)"
    using q assms(3)
    by (simp add: branchCalls_def setStatus_def validStatus_def)
  finally show ?thesis by (simp add: responseCalls_def)
qed


lemma issue_refused:
  assumes "snd (issue calls cs)" and "filter sends (butlast cs) = []"
  shows "\<exists>k<length cs. fst (issue calls cs) = calls @ take k cs \<and>
           filter sends (take k cs) = []"
proof -
  from issue_take [of cs calls] obtain k where
    k: "k \<le> length cs" "issue calls cs = (calls @ take k cs, k < length cs)" by blast
  with assms(1) have lt: "k < length cs" by simp
  then have "take k cs = take k (butlast cs)" by (simp add: take_butlast)
  with assms(2) have "filter sends (take k cs) = []"
    by (metis filter_empty_conv in_set_takeD)
  with k lt show ?thesis by (intro exI [of _ k]) simp
qed

text \<open>
  C3, as the spec states it: a redirect that is set is issued, and a status that
  alone is set ends the response.  The code tests both for truthiness: with the
  redirect set to the empty string the text branch runs, and a lone status 0 ends
  with status 200.
\<close>

theorem empty_redirect_is_not_a_redirect:
  "sendResponseFromOutput []
     (ResponseElement \<lparr>rstatus = None, rjson = None, rtext = Some ''hi'', rhtml = None,
        rheaders = None, rredirect = Some []\<rparr>) = [Type ''text/plain'', Send ''hi'']
   \<and> sendResponseFromOutput []
     (ResponseElement \<lparr>rstatus = Some 0, rjson = None, rtext = None, rhtml = None,
        rheaders = None, rredirect = None\<rparr>) = [Status 200, End]"
  by (simp add: sendResponseFromOutput_def responseCalls_def branchCalls_def setHeaders_def
        setStatus_def validStatus_def headersSent_def)

text \<open>
  C3, amended: for a Response node, when no response was sent yet and the
  transport accepts the headers and the status (header names that are tokens,
  header values without control characters, a status in \<open>100..999\<close>), the headers
  are set first, and then exactly the first of these applies: a non-empty redirect
  is issued with the status if it is given and not 0, else with 302; else a text
  that is set is sent as text/plain; else an html that is set is sent as text/html;
  else a json that is set is sent as JSON (all three after the status, if it is
  given and not 0); else a status that is given and not 0 ends the response; else
  status 200 ends it.  Exactly one call that sends the response is made, and the
  function does not throw.  When the transport refuses a call, the function throws
  at that call with no response sent by it, and the engine answers 500 with the
  body \<^verbatim>\<open>{ error: "Internal server error" }\<close> if nothing was sent before.
\<close>

theorem response_node_normalization:
  "(\<not> headersSent calls
    \<and> (\<forall>(h, v) \<in> set (case rheaders props of None \<Rightarrow> [] | Some kvs \<Rightarrow> kvs).
          validHeaderName h \<and> validHeaderValue v)
    \<and> (truthy_num (rstatus props) \<longrightarrow> validStatus (the (rstatus props)))
    \<longrightarrow>
      (truthy_str (rredirect props) \<longrightarrow>
         sendResponseFromOutput calls (ResponseElement props) =
           calls @ setHeaders (rheaders props) @
           [Redirect (if truthy_num (rstatus props) then the (rstatus props) else 302)
              (the (rredirect props))])
    \<and> (\<not> truthy_str (rredirect props) \<and> rtext props \<noteq> None \<longrightarrow>
         sendResponseFromOutput calls (ResponseElement props) =
           calls @ setHeaders (rheaders props) @ setStatus (rstatus props) @
           [Type ''text/plain'', Send (the (rtext props))])
    \<and> (\<not> truthy_str (rredirect props) \<and> rtext props = None \<and> rhtml props \<noteq> None \<longrightarrow>
         sendResponseFromOutput calls (ResponseElement props) =
           calls @ setHeaders (rheaders props) @ setStatus (rstatus props) @
           [Type ''text/html'', Send (the (rhtml props))])
    \<and> (\<not> truthy_str (rredirect props) \<and> rtext props = None \<and> rhtml props = None \<and>
         rjson props \<noteq> None \<longrightarrow>
         sendResponseFromOutput calls (ResponseElement props) =
           calls @ setHeaders (rheaders props) @ setStatus (rstatus props) @
           [Json (the (rjson props))])
    \<and> (\<not> truthy_str (rredirect props) \<and> rtext props = None \<and> rhtml props = None \<and>
         rjson props = None \<and> truthy_num (rstatus props) \<longrightarrow>
         sendResponseFromOutput calls (ResponseElement props) =
           calls @ setHeaders (rheaders props) @ [Status (the (rstatus props)), End])
    \<and> (\<not> truthy_str (rredirect props) \<and> rtext props = None \<and> rhtml props = None \<and>
         rjson props = None \<and> \<not> truthy_num (rstatus props) \<longrightarrow>
         sendResponseFromOutput calls (ResponseElement props) =
           calls @ setHeaders (rheaders props) @ [Status 200, End])
    \<and> length (filter sends
         (drop (length calls) (sendResponseFromOutput calls (ResponseElement props)))) = 1
    \<and> \<not> sendResponseThrows calls (ResponseElement props))
 \<and> (sendResponseThrows calls (ResponseElement props) \<longrightarrow>
      filter sends
        (drop (length calls) (sendResponseFromOutput calls (ResponseElement props))) = []
    \<and> (\<not> headersSent calls \<longrightarrow>
         finish (Returned (ResponseElement props), s\<lparr>res := calls\<rparr>) =
           s\<lparr>res := sendResponseFromOutput calls (ResponseElement props) @
                     [Status 500, Json (JObj [(''error'', JStr ''Internal server error'')])],
             routeContext := None\<rparr>))"
  (is "(?H \<longrightarrow> ?C) \<and> (?T \<longrightarrow> ?D)")
proof -
  have thr: "?T \<longrightarrow> ?D"
  proof (intro impI conjI)
    assume t: "sendResponseThrows calls (ResponseElement props)"
    then have "snd (issue calls (responseCalls props))"
      by (simp add: sendResponseThrows_def)
    from issue_refused [OF this] responseCalls_last [of props] obtain k where
      k: "fst (issue calls (responseCalls props)) = calls @ take k (responseCalls props)"
         "filter sends (take k (responseCalls props)) = []" by blast
    then have r: "sendResponseFromOutput calls (ResponseElement props)
                    = calls @ take k (responseCalls props)"
      by (simp add: sendResponseFromOutput_def)
    show "filter sends
          (drop (length calls) (sendResponseFromOutput calls (ResponseElement props))) = []"
      using k(2) by (simp add: r)
    assume "\<not> headersSent calls"
    with k(2) have "\<not> headersSent (calls @ take k (responseCalls props))"
      by (auto simp: headersSent_def list_ex_iff filter_empty_conv)
    with t show "finish (Returned (ResponseElement props), s\<lparr>res := calls\<rparr>) =
             s\<lparr>res := sendResponseFromOutput calls (ResponseElement props) @
                       [Status 500, Json (JObj [(''error'', JStr ''Internal server error'')])],
               routeContext := None\<rparr>"
      by (simp add: finish_def caught_def internalServerError_def r)
  qed
  have acc: "?H \<longrightarrow> ?C"
  proof
    assume a: ?H
    then have i: "issue calls (responseCalls props) = (calls @ responseCalls props, False)"
      by (intro issue_accepted) simp_all
    then have r: "sendResponseFromOutput calls (ResponseElement props)
                    = calls @ setHeaders (rheaders props) @ branchCalls props"
      by (simp add: sendResponseFromOutput_def responseCalls_def)
    from i have n: "\<not> sendResponseThrows calls (ResponseElement props)"
      by (simp add: sendResponseThrows_def)
    show ?C
      unfolding r using n
      by (simp add: branchCalls_def sends_setHeaders sends_setStatus)
  qed
  from acc thr show ?thesis by (rule conjI)
qed

theorem response_node_normalization_witness:
  "sendResponseFromOutput []
     (ResponseElement \<lparr>rstatus = Some 201, rjson = Some (JObj [(''msg'', JStr ''x'')]),
        rtext = None, rhtml = None, rheaders = Some [(''X-A'', ''1'')], rredirect = None\<rparr>)
   = [SetHeader ''X-A'' ''1'', Status 201, Json (JObj [(''msg'', JStr ''x'')])]
   \<and> sendResponseFromOutput []
     (ResponseElement \<lparr>rstatus = None, rjson = Some JNull, rtext = Some ''t'',
        rhtml = Some ''h'', rheaders = None, rredirect = Some ''/login''\<rparr>)
   = [Redirect 302 ''/login'']
   \<and> sendResponseThrows []
     (ResponseElement \<lparr>rstatus = Some 1000, rjson = Some (JObj [(''msg'', JStr ''x'')]),
        rtext = None, rhtml = None, rheaders = Some [(''X-A'', ''1'')], rredirect = None\<rparr>)
   \<and> finish (Returned
        (ResponseElement \<lparr>rstatus = Some 1000, rjson = Some (JObj [(''msg'', JStr ''x'')]),
           rtext = None, rhtml = None, rheaders = Some [(''X-A'', ''1'')], rredirect = None\<rparr>),
        idle\<lparr>res := []\<rparr>)
   = idle\<lparr>res := [SetHeader ''X-A'' ''1'', Status 500,
                   Json (JObj [(''error'', JStr ''Internal server error'')])],
          routeContext := None\<rparr>"
proof -
  let ?ok = "\<lparr>rstatus = Some 201, rjson = Some (JObj [(''msg'', JStr ''x'')]),
        rtext = None, rhtml = None, rheaders = Some [(''X-A'', ''1'')], rredirect = None\<rparr>"
  let ?rd = "\<lparr>rstatus = None, rjson = Some JNull, rtext = Some ''t'',
        rhtml = Some ''h'', rheaders = None, rredirect = Some ''/login''\<rparr>"
  let ?bad = "\<lparr>rstatus = Some 1000, rjson = Some (JObj [(''msg'', JStr ''x'')]),
        rtext = None, rhtml = None, rheaders = Some [(''X-A'', ''1'')], rredirect = None\<rparr>"
  have v: "validHeaderName ''X-A''" "validHeaderValue ''1''" "validStatus 201"
    by (simp_all add: validHeaderName_def validHeaderValue_def tokenChars_def validStatus_def)
  have t: "sendResponseThrows [] (ResponseElement ?bad)"
    and m: "sendResponseFromOutput [] (ResponseElement ?bad) = [SetHeader ''X-A'' ''1'']"
    using v by (simp_all add: sendResponseThrows_def sendResponseFromOutput_def responseCalls_def
                  branchCalls_def setHeaders_def setStatus_def validStatus_def)
  from response_node_normalization [where calls = "[]" and props = ?ok and s = idle] v
  have 1: "sendResponseFromOutput [] (ResponseElement ?ok)
             = [SetHeader ''X-A'' ''1'', Status 201, Json (JObj [(''msg'', JStr ''x'')])]"
    by (simp add: setHeaders_def setStatus_def)
  from response_node_normalization [where calls = "[]" and props = ?rd and s = idle]
  have 2: "sendResponseFromOutput [] (ResponseElement ?rd) = [Redirect 302 ''/login'']"
    by (simp add: setHeaders_def)
  from response_node_normalization [where calls = "[]" and props = ?bad and s = idle] t m
  have 3: "finish (Returned (ResponseElement ?bad), idle\<lparr>res := []\<rparr>)
             = idle\<lparr>res := [SetHeader ''X-A'' ''1'', Status 500,
                   Json (JObj [(''error'', JStr ''Internal server error'')])],
                  routeContext := None\<rparr>"
    by simp
  from 1 2 t 3 show ?thesis by simp
qed

text \<open>
  C8.  For an output that is not a Response node: a falsy one is answered with
  500 and the body \<^verbatim>\<open>{ error: "No response generated" }\<close>, a truthy object with 500
  and \<^verbatim>\<open>{ error: "Invalid response format" }\<close>, both only if no response was sent
  yet; any other truthy primitive is sent as its text, with no status set (so with
  the transport's default, 200).
\<close>

theorem non_response_output_normalization:
  assumes "\<forall>p. out \<noteq> ResponseElement p"
  shows "sendResponseFromOutput calls out =
    (if falsy out then
       (if headersSent calls then calls
        else calls @ [Status 500, Json (JObj [(''error'', JStr ''No response generated'')])])
     else if isObject out then
       (if headersSent calls then calls
        else calls @ [Status 500, Json (JObj [(''error'', JStr ''Invalid response format'')])])
     else calls @ [Send (toString out)])"
  using assms by (cases out) (simp_all add: sendResponseFromOutput_def)

theorem non_response_output_normalization_witness:
  "sendResponseFromOutput [] Undefined =
      [Status 500, Json (JObj [(''error'', JStr ''No response generated'')])]
   \<and> sendResponseFromOutput [] (Object (JObj [(''a'', JNum 1)])) =
      [Status 500, Json (JObj [(''error'', JStr ''Invalid response format'')])]
   \<and> sendResponseFromOutput [] (Number 42) = [Send ''42'']
   \<and> sendResponseFromOutput [Send ''x''] Undefined = [Send ''x'']"
  using non_response_output_normalization [of Undefined "[]"]
        non_response_output_normalization [of "Object (JObj [(''a'', JNum 1)])" "[]"]
        non_response_output_normalization [of "Number 42" "[]"]
        non_response_output_normalization [of Undefined "[Send ''x'']"]
  by (simp add: headersSent_def digitChar_def)

section \<open>The compiled table against the nodes of the tree\<close>

lemma pushMiddleware_declared: "pushMiddleware acc m = acc @ declared m"
  by (cases m) (simp_all add: declared_def)

lemma collectMiddleware_useOf:
  "collectMiddleware acc cs = acc @ concat (map useOf cs)"
proof (induction cs arbitrary: acc)
  case Nil
  show ?case by simp
next
  case (Cons c cs)
  show ?case
  proof (cases c)
    case (Middleware u)
    show ?thesis
      using Cons.IH [of "pushMiddleware acc u"] pushMiddleware_declared [of acc u]
      by (simp add: Middleware useOf_def)
  next
    case (Component name u r)
    show ?thesis
      using Cons.IH [of "pushMiddleware acc u"] Cons.IH [of acc]
        pushMiddleware_declared [of acc u]
      by (simp add: Component useOf_def)
  qed (use Cons.IH [of acc] in \<open>simp_all add: useOf_def\<close>)
qed

lemma members_childList: "members c = childList c"
  by (cases c) (simp_all add: members_def)

lemma isMiddleware_node: "isMiddleware c = isMiddlewareNode c"
  by (cases c) (simp_all add: isMiddleware_def)

lemma expected_under_app:
  "expected pfx mws (under (AppFrame ms) x) = expected pfx (mws @ ms) x"
  by (simp add: expected_def under_def)

lemma expected_under_group:
  "expected pfx mws (under (GroupFrame p ms) x) =
     expected (if truthy_str p then pfx @ the p else pfx) (mws @ ms) x"
  by (cases p) (simp_all add: expected_def under_def)

lemma processElement_routes:
  "processElement el pfx mws st = Inr st' \<Longrightarrow>
     routes st' = routes st @ map (expected pfx mws) (enclosed el)"
  "forEachElement els pfx mws st = Inr st' \<Longrightarrow>
     routes st' = routes st @ map (expected pfx mws) (enclosedEach els)"
  "forEachGroupChild cs pfx mws st = Inr st' \<Longrightarrow>
     routes st' = routes st @ map (expected pfx mws) (enclosedGroup cs)"
proof (induction el pfx mws st and els pfx mws st and cs pfx mws st arbitrary: st' and st' and st'
    rule: processElement_forEachElement_forEachGroupChild.induct)
  case (5 pport pcors pmw children pathPrefix mws st)
  from "5.prems" "5.IH" [OF refl refl, of st']
  show ?case
    using pushMiddleware_declared [of mws pmw]
    by (simp add: Let_def expected_under_app o_def)
next
  case (6 pprefix pmw children pathPrefix mws st)
  from "6.prems" "6.IH" [OF refl refl, of st']
  show ?case
    using pushMiddleware_declared [of mws pmw]
      collectMiddleware_useOf [of "pushMiddleware mws pmw" "childList children"]
    by (simp add: Let_def expected_under_group o_def members_childList)
next
  case (7 ppath pmethod pmw pchildren pquery pbody pathPrefix mws st)
  then show ?case
    using pushMiddleware_declared [of mws pmw]
    by (auto simp: Let_def expected_def split: if_splits)
next
  case (11 el els pathPrefix mws st)
  from "11.prems" obtain st1 where
    a: "processElement el pathPrefix mws st = Inr st1" and
    b: "forEachElement els pathPrefix mws st1 = Inr st'"
    by (auto split: sum.splits)
  from "11.IH"(1) [OF a] "11.IH"(2) [OF a b] show ?case by simp
next
  case (13 c cs pathPrefix mws st)
  show ?case
  proof (cases "isMiddlewareNode c")
    case True
    with "13.prems" "13.IH"(1) [of st'] show ?thesis by (simp add: isMiddleware_node)
  next
    case False
    with "13.prems" obtain st1 where
      a: "processElement c pathPrefix mws st = Inr st1" and
      b: "forEachGroupChild cs pathPrefix mws st1 = Inr st'"
      by (auto split: sum.splits)
    from "13.IH"(2) [OF False a] "13.IH"(3) [OF False a b] False show ?thesis
      by (simp add: isMiddleware_node)
  qed
qed simp_all

section \<open>Properties of the compiled table\<close>

text \<open>
  C2.  In every table that \<^verbatim>\<open>serve\<close> compiles, the routes are the Route nodes of
  the tree (those with a path and a handler), in order, and the path of each is the
  concatenation of the prefixes of its enclosing RouteGroup nodes, outermost first,
  followed by its own path literal; a group without a prefix contributes nothing
  (and so does an App node).
\<close>

theorem compiled_path_is_prefix_concatenation:
  assumes "compile el = Inr st"
  shows "map path (routes st) =
           map (\<lambda>x. concat (map framePrefix (fst x)) @ path (snd x)) (enclosed el)"
  using processElement_routes(1) [of el "[]" "[]" emptyStore st] assms
  by (simp add: compile_def emptyStore_def expected_def)

theorem compiled_path_is_prefix_concatenation_witness:
  "compile (App None None MwUndefined
      (RouteGroup (Some ''/api'') MwUndefined
        (Fragment
          [RouteGroup None MwUndefined
             (RouteGroup (Some ''/v1'') MwUndefined
                (Route (Some ''/users/:id'') (Some ''GET'') MwUndefined
                   (Some (Return Undefined)) None None)),
           Route (Some ''/health'') (Some ''GET'') MwUndefined
             (Some (Return Undefined)) None None])))
   = Inr \<lparr>routes =
        [\<lparr>route_method = ''get'', path = ''/api/v1/users/:id'', handler = Return Undefined,
          middlewares = ([] :: prog list), querySchema = None, bodySchema = None\<rparr>,
         \<lparr>route_method = ''get'', path = ''/api/health'', handler = Return Undefined,
          middlewares = [], querySchema = None, bodySchema = None\<rparr>],
      appConfig = \<lparr>port = Some 9000, cors = None\<rparr>\<rparr>
   \<and> map (\<lambda>x. concat (map framePrefix (fst x)) @ path (snd x))
        (enclosed (App None None MwUndefined
      (RouteGroup (Some ''/api'') MwUndefined
        (Fragment
          [RouteGroup None MwUndefined
             (RouteGroup (Some ''/v1'') MwUndefined
                (Route (Some ''/users/:id'') (Some ''GET'') MwUndefined
                   (Some (Return Undefined)) None None)),
           Route (Some ''/health'') (Some ''GET'') MwUndefined
             (Some (Return Undefined)) None None]))) :: (prog frame list \<times> (prog, prog) route) list)
      = [''/api/v1/users/:id'', ''/api/health'']"
proof -
  let ?T = "App None None MwUndefined
      (RouteGroup (Some ''/api'') MwUndefined
        (Fragment
          [RouteGroup None MwUndefined
             (RouteGroup (Some ''/v1'') MwUndefined
                (Route (Some ''/users/:id'') (Some ''GET'') MwUndefined
                   (Some (Return Undefined)) None None)),
           Route (Some ''/health'') (Some ''GET'') MwUndefined
             (Some (Return Undefined)) None None])) :: (prog, prog) element"
  let ?S = "\<lparr>routes =
        [\<lparr>route_method = ''get'', path = ''/api/v1/users/:id'', handler = Return Undefined,
          middlewares = ([] :: prog list), querySchema = None, bodySchema = None\<rparr>,
         \<lparr>route_method = ''get'', path = ''/api/health'', handler = Return Undefined,
          middlewares = [], querySchema = None, bodySchema = None\<rparr>],
      appConfig = \<lparr>port = Some 9000, cors = None\<rparr>\<rparr>"
  have c: "compile ?T = Inr ?S"
    by (simp add: compile_def emptyStore_def toLowerCase_def lowerChar_def)
  from compiled_path_is_prefix_concatenation [OF c] c show ?thesis by simp
qed

section \<open>Running a chain\<close>

lemma useSetContext_fields [simp]:
  "middlewareIndex (useSetContext k v s) = middlewareIndex s"
  "invoked (useSetContext k v s) = invoked s"
  "res (useSetContext k v s) = res s"
  "globalContext (useSetContext k v s) = (case routeContext s of None \<Rightarrow> (globalContext s)(k \<mapsto> v) | Some rc \<Rightarrow> globalContext s)"
  by (simp_all add: useSetContext_def Let_def split: option.splits)

lemma run_forward [simp]: "run (forward r) nxt s = Some (r, s)"
  by (cases r) simp_all

lemma preState_fields [simp]:
  "middlewareIndex (preState p s) = middlewareIndex s"
  "invoked (preState p s) = invoked s"
  by (induction p arbitrary: s) simp_all

lemma run_total:
  assumes "\<And>s. i \<le> middlewareIndex s \<Longrightarrow>
             \<exists>r s'. nxt s = Some (r, s') \<and> middlewareIndex s \<le> middlewareIndex s'"
    and "i \<le> middlewareIndex s"
  shows "\<exists>r s'. run p nxt s = Some (r, s') \<and> middlewareIndex s \<le> middlewareIndex s'"
  using assms(2)
proof (induction p arbitrary: s)
  case (Next k)
  from assms(1) [OF Next.prems] obtain r s1 where
    n: "nxt s = Some (r, s1)" "middlewareIndex s \<le> middlewareIndex s1" by blast
  with Next.prems have "i \<le> middlewareIndex s1" by simp
  have "k r \<in> range k" by simp
  from Next.IH [OF this \<open>i \<le> middlewareIndex s1\<close>] obtain r' s' where
    "run (k r) nxt s1 = Some (r', s')" "middlewareIndex s1 \<le> middlewareIndex s'"
    by blast
  with n show ?case by auto
next
  case (SetContext key v p)
  from SetContext.IH [of "useSetContext key v s"] SetContext.prems show ?case by simp
next
  case (ResCall c p)
  from ResCall.IH [of "s\<lparr>res := res s @ [c]\<rparr>"] ResCall.prems show ?case by simp
next
  case (GetContext key k)
  have "k (useContext key s) \<in> range k" by simp
  from GetContext.IH [OF this GetContext.prems] show ?case by simp
qed auto

lemma run_invoked:
  assumes "\<And>s r s'. nxt s = Some (r, s') \<Longrightarrow> invoked s' = invoked s"
    and "run p nxt s = Some (r, s')"
  shows "invoked s' = invoked s"
  using assms(2)
proof (induction p arbitrary: s)
  case (Next k)
  from Next.prems obtain r1 s1 where
    n: "nxt s = Some (r1, s1)" and r: "run (k r1) nxt s1 = Some (r, s')"
    by (auto split: option.splits)
  have "k r1 \<in> range k" by simp
  from Next.IH [OF this r] assms(1) [OF n] show ?case by simp
qed auto

lemma callHandler_total:
  "\<exists>r s'. callHandler h s = Some (r, s') \<and> middlewareIndex s \<le> middlewareIndex s'"
  unfolding callHandler_def
  using run_total [of "middlewareIndex s" "\<lambda>s'. Some (Thrown (String ''TypeError''), s')"
                     "s\<lparr>invoked := invoked s @ [None]\<rparr>" h]
  by simp

lemma callHandler_invoked:
  "callHandler h s = Some (r, s') \<Longrightarrow> invoked s' = invoked s @ [None]"
  unfolding callHandler_def
  using run_invoked [of "\<lambda>s'. Some (Thrown (String ''TypeError''), s')" h
                     "s\<lparr>invoked := invoked s @ [None]\<rparr>" r s']
  by simp

lemma exec_total:
  "length mws \<le> n + middlewareIndex s \<Longrightarrow>
   \<exists>r s'. executeNextMiddleware n mws h s = Some (r, s') \<and> middlewareIndex s \<le> middlewareIndex s'"
proof (induction n arbitrary: s)
  case 0
  then show ?case using callHandler_total [of h s] by simp
next
  case (Suc n)
  show ?case
  proof (cases "length mws \<le> middlewareIndex s")
    case True
    then show ?thesis using callHandler_total [of h s] by simp
  next
    case False
    let ?s1 = "s\<lparr>middlewareIndex := middlewareIndex s + 1,
                invoked := invoked s @ [Some (middlewareIndex s)]\<rparr>"
    have nx: "\<And>t. middlewareIndex s + 1 \<le> middlewareIndex t \<Longrightarrow>
             \<exists>r s'. executeNextMiddleware n mws h t = Some (r, s') \<and>
                    middlewareIndex t \<le> middlewareIndex s'"
      using Suc.prems by (intro Suc.IH) simp
    from run_total [of "middlewareIndex s + 1" "executeNextMiddleware n mws h" ?s1
                       "mws ! middlewareIndex s", OF nx]
    obtain r s' where
      "run (mws ! middlewareIndex s) (executeNextMiddleware n mws h) ?s1 = Some (r, s')"
      "middlewareIndex ?s1 \<le> middlewareIndex s'" by auto
    with False show ?thesis by auto
  qed
qed

section \<open>Properties of the dispatch of one request\<close>

lemma seed_fields [simp]:
  "middlewareIndex (seed k v s) = middlewareIndex s"
  "invoked (seed k v s) = invoked s"
  "res (seed k v s) = res s"
  "globalContext (seed k v s) = globalContext s"
  by (simp_all add: seed_def split: option.splits)

lemma enterScope_fields [simp]:
  "middlewareIndex (enterScope b q req s) = 0"
  "invoked (enterScope b q req s) = []"
  "res (enterScope b q req s) = res s"
  "globalContext (enterScope b q req s) = globalContext s"
  by (simp_all add: enterScope_def seedSchema_def seedContext_def openScope_def Let_def
      split: option.splits)

lemma finish_routeContext [simp]: "routeContext (finish x) = None"
  by (cases x) (simp add: finish_def split: outcome.splits)

text \<open>
  C7.  The handler of a route always ends, and ends with \<^verbatim>\<open>routeContext\<close> set to
  \<^verbatim>\<open>null\<close>, whatever the chain and the handler do.  When the chain ends with a thrown
  error, the response gets status 500 and the body
  \<^verbatim>\<open>{ error: "Internal server error" }\<close> if nothing was sent yet and no further call
  otherwise; the thrown value is not part of what the engine sends.  The handler
  of a wildcard route does the same when it takes the request.
\<close>

theorem errors_caught_and_scope_cleared:
  "(\<exists>s'. createExpressHandler h mws b q req s = Some s' \<and> routeContext s' = None)
   \<and> (executeNextMiddleware (length mws) mws h (enterScope b q req s) = Some (Thrown e, s1)
      \<longrightarrow> createExpressHandler h mws b q req s =
            Some (s1\<lparr>res := (if headersSent (res s1) then res s1
                              else res s1 @ [Status 500,
                                     Json (JObj [(''error'', JStr ''Internal server error'')])]),
                     routeContext := None\<rparr>))
   \<and> (route_method r = ''all'' \<or> toLowerCase (req_method req) = route_method r
      \<longrightarrow> (\<exists>s'. methodSpecificWildcardHandler r req s = Some (Responded s') \<and>
                routeContext s' = None))
   \<and> (route_method r = ''all'' \<or> toLowerCase (req_method req) = route_method r
      \<longrightarrow> executeNextMiddleware (length (middlewares r)) (middlewares r) (handler r)
            (enterScope None None req s) = Some (Thrown e, s1)
      \<longrightarrow> methodSpecificWildcardHandler r req s =
            Some (Responded (s1\<lparr>res := (if headersSent (res s1) then res s1
                              else res s1 @ [Status 500,
                                     Json (JObj [(''error'', JStr ''Internal server error'')])]),
                     routeContext := None\<rparr>)))"
proof -
  have tot: "\<And>ms hh bb qq. \<exists>x. executeNextMiddleware (length ms) ms hh (enterScope bb qq req s) = Some x"
  proof -
    fix ms hh bb qq
    from exec_total [of ms "length ms" "enterScope bb qq req s" hh]
    show "\<exists>x. executeNextMiddleware (length ms) ms hh (enterScope bb qq req s) = Some x"
      by auto
  qed
  from tot [of mws h b q] have 1:
    "\<exists>s'. createExpressHandler h mws b q req s = Some s' \<and> routeContext s' = None"
    by (auto simp: createExpressHandler_def)
  have 2: "executeNextMiddleware (length mws) mws h (enterScope b q req s) = Some (Thrown e, s1)
      \<longrightarrow> createExpressHandler h mws b q req s =
            Some (s1\<lparr>res := (if headersSent (res s1) then res s1
                              else res s1 @ [Status 500,
                                     Json (JObj [(''error'', JStr ''Internal server error'')])]),
                     routeContext := None\<rparr>)"
    by (simp add: createExpressHandler_def finish_def internalServerError_def)
  from tot [of "middlewares r" "handler r" None None] have 3:
    "route_method r = ''all'' \<or> toLowerCase (req_method req) = route_method r
      \<longrightarrow> (\<exists>s'. methodSpecificWildcardHandler r req s = Some (Responded s') \<and>
                routeContext s' = None)"
    by (auto simp: methodSpecificWildcardHandler_def)
  have 4: "route_method r = ''all'' \<or> toLowerCase (req_method req) = route_method r
      \<longrightarrow> executeNextMiddleware (length (middlewares r)) (middlewares r) (handler r)
            (enterScope None None req s) = Some (Thrown e, s1)
      \<longrightarrow> methodSpecificWildcardHandler r req s =
            Some (Responded (s1\<lparr>res := (if headersSent (res s1) then res s1
                              else res s1 @ [Status 500,
                                     Json (JObj [(''error'', JStr ''Internal server error'')])]),
                     routeContext := None\<rparr>))"
    by (auto simp: methodSpecificWildcardHandler_def finish_def internalServerError_def)
  from 1 2 3 4 show ?thesis by blast
qed

theorem errors_caught_and_scope_cleared_witness:
  "createExpressHandler (Throw (String ''boom'')) [] None None (plainRequest ''GET'' ''/x'') idle
     = Some ((enterScope None None (plainRequest ''GET'' ''/x'') idle)
               \<lparr>invoked := [None],
                res := [Status 500, Json (JObj [(''error'', JStr ''Internal server error'')])],
                routeContext := None\<rparr>)
   \<and> methodSpecificWildcardHandler
        \<lparr>route_method = ''all'', path = ''*'', handler = Throw (String ''boom''),
         middlewares = [], querySchema = None, bodySchema = None\<rparr>
        (plainRequest ''GET'' ''/x'') idle
     = Some (Responded ((enterScope None None (plainRequest ''GET'' ''/x'') idle)
               \<lparr>invoked := [None],
                res := [Status 500, Json (JObj [(''error'', JStr ''Internal server error'')])],
                routeContext := None\<rparr>))"
  using errors_caught_and_scope_cleared
          [of "Throw (String ''boom'')" "[]" None None "plainRequest ''GET'' ''/x''" idle
              "String ''boom''"
              "(enterScope None None (plainRequest ''GET'' ''/x'') idle)\<lparr>invoked := [None]\<rparr>"
              "\<lparr>route_method = ''all'', path = ''*'', handler = Throw (String ''boom''),
                middlewares = [], querySchema = None, bodySchema = None\<rparr>"]
  by (simp add: callHandler_def headersSent_def idle_def)

section \<open>The order of the calls, for any chain\<close>

lemma inOrder_cong:
  "middlewareIndex t = middlewareIndex s \<Longrightarrow> invoked t = invoked s \<Longrightarrow>
   inOrder n t = inOrder n s"
  by (simp add: inOrder_def)

lemma run_inOrder:
  assumes "\<And>t r t'. inOrder n t \<Longrightarrow> nxt t = Some (r, t') \<Longrightarrow> inOrder n t'"
    and "inOrder n s" and "run p nxt s = Some (r, s')"
  shows "inOrder n s'"
  using assms(2,3)
proof (induction p arbitrary: s)
  case (Next k)
  from Next.prems(2) obtain r1 s1 where
    n: "nxt s = Some (r1, s1)" and r: "run (k r1) nxt s1 = Some (r, s')"
    by (auto split: option.splits)
  have "k r1 \<in> range k" by simp
  from Next.IH [OF this assms(1) [OF Next.prems(1) n] r] show ?case .
next
  case (SetContext key v p)
  have "inOrder n (useSetContext key v s)"
    using SetContext.prems(1) by (simp add: inOrder_cong [of "useSetContext key v s" s])
  from SetContext.IH [OF this] SetContext.prems(2) show ?case by simp
next
  case (ResCall c p)
  have "inOrder n (s\<lparr>res := res s @ [c]\<rparr>)"
    using ResCall.prems(1) by (simp add: inOrder_def)
  from ResCall.IH [OF this] ResCall.prems(2) show ?case by simp
next
  case (GetContext key k)
  have "k (useContext key s) \<in> range k" by simp
  from GetContext.IH [OF this GetContext.prems(1)] GetContext.prems(2) show ?case by simp
qed auto

lemma inOrder_handler:
  assumes "inOrder n s" and "n \<le> middlewareIndex s"
  shows "inOrder n (s\<lparr>invoked := invoked s @ [None]\<rparr>)"
proof -
  from assms have i: "middlewareIndex s = n" by (simp add: inOrder_def)
  define k where "k = length (invoked s) - n"
  from assms(1) have e: "invoked s = map Some [0..<n] @ replicate k None"
    by (simp add: inOrder_def i k_def)
  have l: "length (invoked s) = n + k"
    by (subst e) simp
  have "invoked s @ [None] = map Some [0..<n] @ replicate (Suc k) None"
    by (subst e) (simp add: replicate_append_same)
  moreover have "Suc (length (invoked s)) - n = Suc k" using l by simp
  ultimately show ?thesis by (simp add: inOrder_def i)
qed

lemma inOrder_middleware:
  assumes "inOrder n s" and "middlewareIndex s < n"
  shows "inOrder n (s\<lparr>middlewareIndex := middlewareIndex s + 1,
                       invoked := invoked s @ [Some (middlewareIndex s)]\<rparr>)"
proof -
  from assms have l: "\<not> middlewareIndex s < length (invoked s)" by (auto simp: inOrder_def)
  with assms(1) have e: "invoked s = map Some [0..<middlewareIndex s]"
    by (simp add: inOrder_def)
  then have "length (invoked s) = middlewareIndex s"
    by (metis length_map length_upt minus_nat.diff_0)
  with e assms(2) show ?thesis by (simp add: inOrder_def)
qed

lemma callHandler_inOrder:
  assumes "inOrder n s" and "n \<le> middlewareIndex s" and "callHandler h s = Some (r, s')"
  shows "inOrder n s'"
  using assms(3) unfolding callHandler_def
  by (rule run_inOrder [rotated 2]) (simp_all add: inOrder_handler [OF assms(1,2)])

lemma exec_inOrder:
  "inOrder (length mws) s \<Longrightarrow> executeNextMiddleware n mws h s = Some (r, s') \<Longrightarrow>
   inOrder (length mws) s'"
proof (induction n arbitrary: s r s')
  case 0
  then show ?case
    by (auto split: if_splits intro: callHandler_inOrder)
next
  case (Suc n)
  show ?case
  proof (cases "length mws \<le> middlewareIndex s")
    case True
    with Suc.prems show ?thesis by (auto intro: callHandler_inOrder)
  next
    case False
    let ?s1 = "s\<lparr>middlewareIndex := middlewareIndex s + 1,
                invoked := invoked s @ [Some (middlewareIndex s)]\<rparr>"
    from False Suc.prems(1) have i: "inOrder (length mws) ?s1"
      by (intro inOrder_middleware) simp_all
    from False Suc.prems(2) have
      "run (mws ! middlewareIndex s) (executeNextMiddleware n mws h) ?s1 = Some (r, s')"
      by simp
    then show ?thesis
      by (rule run_inOrder [rotated 2]) (use Suc.IH i in auto)
  qed
qed

lemma inOrder_enterScope: "inOrder n (enterScope b q req s)"
  by (simp add: inOrder_def)

section \<open>Chains under the contract, and the layers of a served tree\<close>

lemma run_ends: "ends p r s \<Longrightarrow> run p nxt s = Some (r, preState p s)"
  by (induction p arbitrary: s) auto

lemma ends_forward [simp]: "ends (forward r) r s"
  by (cases r) simp_all

lemma run_passesAt:
  assumes "passesAt m s" and "nxt (preState m s) = Some (r, s')"
  shows "\<exists>s''. run m nxt s = Some (r, s'') \<and> invoked s'' = invoked s' \<and>
               middlewareIndex s'' = middlewareIndex s'"
  using assms
proof (induction m arbitrary: s)
  case (Next k)
  from Next.prems(1) have "ends (k r) r s'" by simp
  from run_ends [OF this, of nxt] Next.prems(2) show ?case by simp
next
  case (GetContext key k)
  have "k (useContext key s) \<in> range k" by simp
  from GetContext.IH [OF this] GetContext.prems show ?case by simp
qed simp_all

lemma enter_fields [simp]:
  "middlewareIndex (enter s) = Suc (middlewareIndex s)"
  "invoked (enter s) = invoked s @ [Some (middlewareIndex s)]"
  by (simp_all add: enter_def)

lemma exec_step:
  "middlewareIndex s < length mws \<Longrightarrow>
   executeNextMiddleware (Suc n) mws h s =
     run (mws ! middlewareIndex s) (executeNextMiddleware n mws h) (enter s)"
  by (simp add: enter_def)

lemma chain_passesAt:
  assumes "\<forall>i. middlewareIndex s + i < length mws \<longrightarrow>
             passesAt (mws ! (middlewareIndex s + i)) (entryState mws i s)"
    and "length mws \<le> n + middlewareIndex s"
  shows "\<exists>r s1 s2 s'. executeNextMiddleware n mws h s = Some (r, s') \<and>
           callHandler h s1 = Some (r, s2) \<and>
           invoked s' = invoked s @ map Some [middlewareIndex s..<length mws] @ [None]"
  using assms
proof (induction n arbitrary: s)
  case 0
  from callHandler_total [of h s] obtain r s' where c: "callHandler h s = Some (r, s')" by blast
  with callHandler_invoked [OF c] "0.prems" show ?case
    by (intro exI [of _ r] exI [of _ s] exI [of _ s']) simp
next
  case (Suc n)
  show ?case
  proof (cases "length mws \<le> middlewareIndex s")
    case True
    from callHandler_total [of h s] obtain r s' where c: "callHandler h s = Some (r, s')"
      by blast
    with callHandler_invoked [OF c] True show ?thesis
      by (intro exI [of _ r] exI [of _ s] exI [of _ s']) simp
  next
    case False
    let ?m = "mws ! middlewareIndex s"
    let ?t = "preState ?m (enter s)"
    from False Suc.prems(1) [rule_format, of 0] have p: "passesAt ?m (enter s)" by simp
    have "\<forall>i. middlewareIndex ?t + i < length mws \<longrightarrow>
             passesAt (mws ! (middlewareIndex ?t + i)) (entryState mws i ?t)"
      using Suc.prems(1) [rule_format, of "Suc _"] by simp
    moreover have "length mws \<le> n + middlewareIndex ?t" using Suc.prems(2) by simp
    ultimately obtain r s1 s2 s' where
      e: "executeNextMiddleware n mws h ?t = Some (r, s')" and
      c: "callHandler h s1 = Some (r, s2)" and
      i: "invoked s' = invoked ?t @ map Some [middlewareIndex ?t..<length mws] @ [None]"
      using Suc.IH [of ?t] by blast
    from run_passesAt [where nxt = "executeNextMiddleware n mws h", OF p e] obtain s'' where
      "run ?m (executeNextMiddleware n mws h) (enter s) = Some (r, s'')"
      "invoked s'' = invoked s'" by blast
    with False c i show ?thesis
      by (intro exI [of _ r] exI [of _ s1] exI [of _ s2] exI [of _ s''])
         (simp add: exec_step upt_conv_Cons del: executeNextMiddleware.simps)
  qed
qed

lemma chain_returns:
  assumes "middlewareIndex s + j < length mws"
    and "\<forall>i<j. passesAt (mws ! (middlewareIndex s + i)) (entryState mws i s)"
    and "ends (mws ! (middlewareIndex s + j)) (Returned v) (entryState mws j s)"
    and "j < n"
  shows "\<exists>s'. executeNextMiddleware n mws h s = Some (Returned v, s') \<and>
           invoked s' = invoked s @ map Some [middlewareIndex s..<Suc (middlewareIndex s + j)]"
  using assms
proof (induction n arbitrary: s j)
  case 0
  then show ?case by simp
next
  case (Suc n)
  let ?m = "mws ! middlewareIndex s"
  from Suc.prems(1) have lt: "middlewareIndex s < length mws" by simp
  show ?case
  proof (cases j)
    case 0
    with Suc.prems(3) have "ends ?m (Returned v) (enter s)" by simp
    from run_ends [OF this] lt 0 show ?thesis
      by (simp add: exec_step del: executeNextMiddleware.simps)
  next
    case (Suc j')
    let ?t = "preState ?m (enter s)"
    from Suc Suc.prems(2) [rule_format, of 0] have p: "passesAt ?m (enter s)" by simp
    have 1: "middlewareIndex ?t + j' < length mws" using Suc.prems(1) Suc by simp
    have 2: "\<forall>i<j'. passesAt (mws ! (middlewareIndex ?t + i)) (entryState mws i ?t)"
      using Suc.prems(2) [rule_format, of "Suc _"] Suc by simp
    have 3: "ends (mws ! (middlewareIndex ?t + j')) (Returned v) (entryState mws j' ?t)"
      using Suc.prems(3) Suc by simp
    have 4: "j' < n" using Suc.prems(4) Suc by simp
    from Suc.IH [OF 1 2 3 4] obtain s' where
      e: "executeNextMiddleware n mws h ?t = Some (Returned v, s')" and
      i: "invoked s' = invoked ?t @ map Some [middlewareIndex ?t..<Suc (middlewareIndex ?t + j')]"
      by blast
    from run_passesAt [where nxt = "executeNextMiddleware n mws h", OF p e] obtain s'' where
      "run ?m (executeNextMiddleware n mws h) (enter s) = Some (Returned v, s'')"
      "invoked s'' = invoked s'" by blast
    with lt i Suc show ?thesis
      by (intro exI [of _ s''])
         (simp add: exec_step upt_conv_Cons del: executeNextMiddleware.simps)
  qed
qed


lemma registerAll_layers:
  "registerAll rs =
     map RouteLayer (registered rs) @
     MethodNotAllowedLayer (methodsByPath (filter (\<lambda>r. path r \<noteq> ''*'') rs)) #
     (if wildcards rs \<noteq> [] then map WildcardLayer (wildcards rs) else [NotFoundLayer])"
  by (simp add: registerAll_def registered_def wildcards_def Let_def)

lemma dispatch_routes_pass:
  "\<forall>x \<in> set pre. \<not> takes pm x req \<Longrightarrow>
   dispatch pm (map RouteLayer pre @ ls) req s = dispatch pm ls req s"
  by (induction pre) (auto simp: takes_def)

lemma dispatch_route_takes:
  "takes pm r req \<Longrightarrow>
   dispatch pm (RouteLayer r # ls) req s =
     map_option Responded
       (createExpressHandler (handler r) (middlewares r) (bodySchema r) (querySchema r) req s)"
  by (simp add: takes_def)

lemma dispatch_wildcards_pass:
  "\<forall>x \<in> set pre. \<not> wildcardTakes x req \<Longrightarrow>
   dispatch pm (map WildcardLayer pre @ ls) req s = dispatch pm ls req s"
  by (induction pre) (simp_all add: wildcardTakes_def methodSpecificWildcardHandler_def)

lemma dispatch_wildcard_takes:
  "wildcardTakes w req \<Longrightarrow>
   dispatch pm (WildcardLayer w # ls) req s =
     map_option (Responded \<circ> finish)
       (executeNextMiddleware (length (middlewares w)) (middlewares w) (handler w)
          (enterScope None None req s))"
proof -
  assume t: "wildcardTakes w req"
  from exec_total [of "middlewares w" "length (middlewares w)" "enterScope None None req s"
                      "handler w"]
  obtain x where
    "executeNextMiddleware (length (middlewares w)) (middlewares w) (handler w)
       (enterScope None None req s) = Some x" by auto
  with t show ?thesis
    by (simp add: wildcardTakes_def methodSpecificWildcardHandler_def)
qed

lemma served_by_route:
  assumes "compile el = Inr st" and "registered (routes st) = pre @ r # post"
    and "\<forall>x \<in> set pre. \<not> takes pm x req" and "takes pm r req"
  shows "\<exists>srv. serve el = Inr srv \<and>
           dispatch pm (layers srv) req s =
             map_option Responded
               (createExpressHandler (handler r) (middlewares r) (bodySchema r)
                  (querySchema r) req s)"
proof -
  let ?rest = "MethodNotAllowedLayer (methodsByPath (filter (\<lambda>r. path r \<noteq> ''*'') (routes st))) #
     (if wildcards (routes st) \<noteq> [] then map WildcardLayer (wildcards (routes st))
      else [NotFoundLayer])"
  have "registerAll (routes st) =
          map RouteLayer pre @ RouteLayer r # (map RouteLayer post @ ?rest)"
    by (simp add: registerAll_layers assms(2))
  then have "dispatch pm (registerAll (routes st)) req s =
          dispatch pm (RouteLayer r # (map RouteLayer post @ ?rest)) req s"
    by (simp only: dispatch_routes_pass [OF assms(3)])
  then show ?thesis
    using assms(1) by (simp only: dispatch_route_takes [OF assms(4)]) (simp add: serve_def)
qed

lemma served_by_wildcard:
  assumes "compile el = Inr st"
    and "\<forall>x \<in> set (registered (routes st)). \<not> takes pm x req"
    and "methodNotAllowed (methodsByPath (filter (\<lambda>r. path r \<noteq> ''*'') (routes st))) req s
           = PassedOn"
    and "wildcards (routes st) = pre @ w # post"
    and "\<forall>x \<in> set pre. \<not> wildcardTakes x req" and "wildcardTakes w req"
  shows "\<exists>srv. serve el = Inr srv \<and>
           dispatch pm (layers srv) req s =
             map_option (Responded \<circ> finish)
               (executeNextMiddleware (length (middlewares w)) (middlewares w) (handler w)
                  (enterScope None None req s))"
proof -
  have "dispatch pm (registerAll (routes st)) req s =
          dispatch pm (map WildcardLayer pre @ WildcardLayer w # map WildcardLayer post) req s"
    using assms(2,3,4)
    by (simp add: registerAll_layers dispatch_routes_pass [where ls = "_ # _"])
  also have "\<dots> = dispatch pm (WildcardLayer w # map WildcardLayer post) req s"
    by (rule dispatch_wildcards_pass [OF assms(5)])
  also have "\<dots> = map_option (Responded \<circ> finish)
               (executeNextMiddleware (length (middlewares w)) (middlewares w) (handler w)
                  (enterScope None None req s))"
    by (rule dispatch_wildcard_takes [OF assms(6)])
  finally show ?thesis
    using assms(1) by (simp add: serve_def)
qed

section \<open>Properties of the middleware chain\<close>

text \<open>
  C1.  The chain of every compiled route is made of the middlewares of the nodes
  around its Route node, outermost first, each list in the order of its
  declaration, followed by the middlewares of the Route node; under an App node at
  the root these are the middlewares of the App node, then those of the RouteGroup
  nodes from the outer to the inner one (for each group those of its \<^verbatim>\<open>middleware\<close>
  prop, then those of its Middleware children), then those of the Route node.
  A request that the transport gives to the layer of a compiled route, or that a
  wildcard route takes, is run through exactly this chain and the handler of the
  route.

  The engine runs a chain in the order of the list and the handler last.  For any
  chain and handler, the run ends and the functions invoked are the middlewares
  \<open>0, 1, ...\<close> in this order, each once, and then the handler, which is called only
  after all the middlewares (and as often as \<^verbatim>\<open>next\<close> is called then).  When
  every middleware, in the state it is invoked in, calls \<^verbatim>\<open>next\<close> once and ends with
  what it gave, the functions invoked are the middlewares \<open>0, 1, ...\<close> in this order
  and then the handler, whose outcome is the one dispatched.  When the middleware
  at index \<open>j\<close> returns a value with no call of \<^verbatim>\<open>next\<close> (those before it passing on
  as above), the functions invoked are the middlewares \<open>0..j\<close> only, neither a later
  middleware nor the handler, and the value it returned is the output that is
  normalised into the response.
\<close>

theorem middleware_chain_order:
  "(compile el = Inr st \<longrightarrow>
      map middlewares (routes st) =
        map (\<lambda>x. concat (map frameMiddlewares (fst x)) @ middlewares (snd x)) (enclosed el))
   \<and> (\<forall>x \<in> set (enclosed (App pport pcors pmw children)).
        \<exists>fs. fst x = AppFrame (declared pmw) # fs)
   \<and> (\<forall>x \<in> set (enclosed (RouteGroup pprefix gmw gchildren)).
        \<exists>fs. fst x = GroupFrame pprefix (declared gmw @ concat (map useOf (members gchildren))) # fs)
   \<and> (compile el = Inr st \<and> registered (routes st) = pre @ r # post \<and>
      (\<forall>x \<in> set pre. \<not> takes pm x req) \<and> takes pm r req \<longrightarrow>
        (\<exists>srv. serve el = Inr srv \<and>
           dispatch pm (layers srv) req s =
             map_option Responded
               (createExpressHandler (handler r) (middlewares r) (bodySchema r)
                  (querySchema r) req s)))
   \<and> (compile el = Inr st \<and> (\<forall>x \<in> set (registered (routes st)). \<not> takes pm x req) \<and>
      methodNotAllowed (methodsByPath (filter (\<lambda>r. path r \<noteq> ''*'') (routes st))) req s
        = PassedOn \<and>
      wildcards (routes st) = wpre @ w # wpost \<and>
      (\<forall>x \<in> set wpre. \<not> wildcardTakes x req) \<and> wildcardTakes w req \<longrightarrow>
        (\<exists>srv. serve el = Inr srv \<and>
           dispatch pm (layers srv) req s =
             map_option (Responded \<circ> finish)
               (executeNextMiddleware (length (middlewares w)) (middlewares w) (handler w)
                  (enterScope None None req s))))
   \<and> (\<exists>r s'. executeNextMiddleware (length mws) mws h (enterScope b q req s) = Some (r, s')
          \<and> (\<exists>k c. invoked s' = map Some [0..<k] @ replicate c None
                 \<and> k \<le> length mws \<and> (0 < c \<longrightarrow> k = length mws)))
   \<and> ((\<forall>i<length mws. passesAt (mws ! i) (entryState mws i (enterScope b q req s))) \<longrightarrow>
        (\<exists>r s1 s2 s'.
            executeNextMiddleware (length mws) mws h (enterScope b q req s) = Some (r, s')
            \<and> callHandler h s1 = Some (r, s2)
            \<and> invoked s' = map Some [0..<length mws] @ [None]
            \<and> createExpressHandler h mws b q req s = Some (finish (r, s'))))
   \<and> (j < length mws
      \<and> (\<forall>i<j. passesAt (mws ! i) (entryState mws i (enterScope b q req s)))
      \<and> ends (mws ! j) (Returned v) (entryState mws j (enterScope b q req s)) \<longrightarrow>
        (\<exists>s'. executeNextMiddleware (length mws) mws h (enterScope b q req s)
                 = Some (Returned v, s')
            \<and> (\<forall>nxt. run (mws ! j) nxt (entryState mws j (enterScope b q req s))
                        = Some (Returned v,
                                preState (mws ! j) (entryState mws j (enterScope b q req s))))
            \<and> invoked s' = map Some [0..<Suc j]
            \<and> createExpressHandler h mws b q req s = Some (finish (Returned v, s'))))"
  (is "?C1 \<and> ?C2 \<and> ?C3 \<and> ?C4 \<and> ?C5 \<and> ?C6 \<and> ?C7 \<and> ?C8")
proof -
  let ?s0 = "enterScope b q req s"
  have 1: ?C1
    using processElement_routes(1) [of el "[]" "[]" emptyStore st]
    by (simp add: compile_def emptyStore_def expected_def)
  have 2: ?C2 by (auto simp: under_def)
  have 3: ?C3 by (auto simp: under_def)
  have 4: ?C4 using served_by_route [of el st pre r post pm req s] by blast
  have 5: ?C5 using served_by_wildcard [of el st pm req s wpre w wpost] by blast
  have 6: ?C6
  proof -
    from exec_total [of mws "length mws" ?s0 h] obtain r s' where
      e: "executeNextMiddleware (length mws) mws h ?s0 = Some (r, s')" by auto
    from exec_inOrder [OF inOrder_enterScope e] have o: "inOrder (length mws) s'" .
    let ?k = "middlewareIndex s'" and ?c = "length (invoked s') - middlewareIndex s'"
    from o have "invoked s' = map Some [0..<?k] @ replicate ?c None \<and> ?k \<le> length mws
        \<and> (0 < ?c \<longrightarrow> ?k = length mws)"
      by (simp add: inOrder_def)
    then have "\<exists>k c. invoked s' = map Some [0..<k] @ replicate c None
                   \<and> k \<le> length mws \<and> (0 < c \<longrightarrow> k = length mws)"
      by (intro exI [of _ ?k] exI [of _ ?c])
    with e show ?thesis by (intro exI [of _ r] exI [of _ s']) simp
  qed
  have 7: ?C7
  proof
    assume "\<forall>i<length mws. passesAt (mws ! i) (entryState mws i ?s0)"
    then have "\<forall>i. middlewareIndex ?s0 + i < length mws \<longrightarrow>
             passesAt (mws ! (middlewareIndex ?s0 + i)) (entryState mws i ?s0)"
      by simp
    from chain_passesAt [OF this, of "length mws" h] obtain r s1 s2 s' where
      "executeNextMiddleware (length mws) mws h ?s0 = Some (r, s')"
      "callHandler h s1 = Some (r, s2)"
      "invoked s' = map Some [0..<length mws] @ [None]" by auto
    then show "\<exists>r s1 s2 s'.
            executeNextMiddleware (length mws) mws h ?s0 = Some (r, s')
            \<and> callHandler h s1 = Some (r, s2)
            \<and> invoked s' = map Some [0..<length mws] @ [None]
            \<and> createExpressHandler h mws b q req s = Some (finish (r, s'))"
      by (intro exI [of _ r] exI [of _ s1] exI [of _ s2] exI [of _ s'])
         (simp add: createExpressHandler_def)
  qed
  have 8: ?C8
  proof
    assume a: "j < length mws
      \<and> (\<forall>i<j. passesAt (mws ! i) (entryState mws i ?s0))
      \<and> ends (mws ! j) (Returned v) (entryState mws j ?s0)"
    then have "middlewareIndex ?s0 + j < length mws"
      "\<forall>i<j. passesAt (mws ! (middlewareIndex ?s0 + i)) (entryState mws i ?s0)"
      "ends (mws ! (middlewareIndex ?s0 + j)) (Returned v) (entryState mws j ?s0)"
      "j < length mws"
      by simp_all
    from chain_returns [OF this, of h] obtain s' where
      e: "executeNextMiddleware (length mws) mws h ?s0 = Some (Returned v, s')" and
      i: "invoked s' = map Some [0..<Suc j]" by auto
    from a have "\<forall>nxt. run (mws ! j) nxt (entryState mws j ?s0)
                        = Some (Returned v, preState (mws ! j) (entryState mws j ?s0))"
      by (simp add: run_ends)
    with e i show "\<exists>s'. executeNextMiddleware (length mws) mws h ?s0 = Some (Returned v, s')
            \<and> (\<forall>nxt. run (mws ! j) nxt (entryState mws j ?s0)
                        = Some (Returned v, preState (mws ! j) (entryState mws j ?s0)))
            \<and> invoked s' = map Some [0..<Suc j]
            \<and> createExpressHandler h mws b q req s = Some (finish (Returned v, s'))"
      by (intro exI [of _ s']) (simp add: createExpressHandler_def)
  qed
  from 1 2 3 4 5 6 7 8 show ?thesis by (intro conjI)
qed

theorem middleware_chain_order_witness:
  "(let A1 = SetContext ''a'' (Number 1) (Next forward);
        A2 = Next (\<lambda>r. ResCall (SetHeader ''X-Time'' ''1'') (forward r));
        B1 = GetContext ''token'' (\<lambda>t.
               if t = String ''valid'' then SetContext ''user'' (String ''u'') (Next forward)
               else Return (ResponseElement \<lparr>rstatus = Some 401,
                      rjson = Some (JObj [(''error'', JStr ''Unauthorized'')]), rtext = None,
                      rhtml = None, rheaders = None, rredirect = None\<rparr>));
        B2 = ResCall (SetHeader ''X-B2'' ''1'') (Next forward);
        B3 = SetContext ''b3'' (Number 3) (Next forward);
        C1 = SetContext ''c1'' (Number 1) (Next forward);
        C2 = SetContext ''c2'' (Number 2) (Next forward);
        H = Return (String ''ok'');
        chain = [A1, A2, B1, B2, B3, C1, C2];
        T = App None None (MwArr [A1, A2])
              (RouteGroup (Some ''/api'') (MwFn B1)
                 (Fragment
                    [Route (Some ''/x'') (Some ''GET'') (MwArr [C1, C2]) (Some H) None None,
                     Component ''Middleware'' (MwArr [B2, B3]) (Middleware (MwArr [B2, B3]))]));
        R = \<lparr>route_method = ''get'', path = ''/api/x'', handler = H,
             middlewares = chain, querySchema = None, bodySchema = None\<rparr>;
        req = plainRequest ''GET'' ''/api/x'';
        known = idle\<lparr>globalContext := [''token'' \<mapsto> String ''valid'']\<rparr>
    in compile T = Inr \<lparr>routes = [R], appConfig = \<lparr>port = Some 9000, cors = None\<rparr>\<rparr>
       \<and> map (\<lambda>x. concat (map frameMiddlewares (fst x)) @ middlewares (snd x)) (enclosed T)
           = [chain]
       \<and> map_sum id (\<lambda>srv. dispatch paramPathMatch (layers srv) req idle) (serve T)
           = Inr (map_option Responded (createExpressHandler H chain None None req idle))
       \<and> map_option (invoked \<circ> snd)
            (executeNextMiddleware (length chain) chain H (enterScope None None req known))
           = Some [Some 0, Some 1, Some 2, Some 3, Some 4, Some 5, Some 6, None]
       \<and> map_option res (createExpressHandler H chain None None req known)
           = Some [SetHeader ''X-B2'' ''1'', SetHeader ''X-Time'' ''1'', Send ''ok'']
       \<and> map_option (invoked \<circ> snd)
            (executeNextMiddleware (length chain) chain H (enterScope None None req idle))
           = Some [Some 0, Some 1, Some 2]
       \<and> map_option res (createExpressHandler H chain None None req idle)
           = Some [SetHeader ''X-Time'' ''1'', Status 401,
                   Json (JObj [(''error'', JStr ''Unauthorized'')])])"
proof -
  let ?A1 = "SetContext ''a'' (Number 1) (Next forward)"
  let ?A2 = "Next (\<lambda>r. ResCall (SetHeader ''X-Time'' ''1'') (forward r))"
  let ?B1 = "GetContext ''token'' (\<lambda>t.
               if t = String ''valid'' then SetContext ''user'' (String ''u'') (Next forward)
               else Return (ResponseElement \<lparr>rstatus = Some 401,
                      rjson = Some (JObj [(''error'', JStr ''Unauthorized'')]), rtext = None,
                      rhtml = None, rheaders = None, rredirect = None\<rparr>))"
  let ?B2 = "ResCall (SetHeader ''X-B2'' ''1'') (Next forward)"
  let ?B3 = "SetContext ''b3'' (Number 3) (Next forward)"
  let ?C1 = "SetContext ''c1'' (Number 1) (Next forward)"
  let ?C2 = "SetContext ''c2'' (Number 2) (Next forward)"
  let ?H = "Return (String ''ok'')"
  let ?chain = "[?A1, ?A2, ?B1, ?B2, ?B3, ?C1, ?C2]"
  let ?T = "App None None (MwArr [?A1, ?A2])
              (RouteGroup (Some ''/api'') (MwFn ?B1)
                 (Fragment
                    [Route (Some ''/x'') (Some ''GET'') (MwArr [?C1, ?C2]) (Some ?H) None None,
                     Component ''Middleware'' (MwArr [?B2, ?B3]) (Middleware (MwArr [?B2, ?B3]))]))"
  let ?R = "\<lparr>route_method = ''get'', path = ''/api/x'', handler = ?H,
             middlewares = ?chain, querySchema = None, bodySchema = None\<rparr>"
  let ?req = "plainRequest ''GET'' ''/api/x''"
  let ?known = "idle\<lparr>globalContext := [''token'' \<mapsto> String ''valid'']\<rparr>"
  let ?S = "\<lparr>routes = [?R], appConfig = \<lparr>port = Some 9000, cors = None\<rparr>\<rparr>"
  let ?v = "ResponseElement \<lparr>rstatus = Some 401,
                      rjson = Some (JObj [(''error'', JStr ''Unauthorized'')]), rtext = None,
                      rhtml = None, rheaders = None, rredirect = None\<rparr>"
  have c: "compile ?T = Inr ?S"
    by (simp add: compile_def emptyStore_def toLowerCase_def lowerChar_def)
  have g: "registered (routes ?S) = [] @ ?R # []"
    by (simp add: registered_def registrar_def toLowerCase_def lowerChar_def)
  have k: "takes paramPathMatch ?R ?req"
    by (simp add: takes_def methodMatch_def paramPathMatch_def plainRequest_def
          toLowerCase_def lowerChar_def)
  note t = middleware_chain_order
     [where el = ?T and st = ?S and mws = ?chain and h = ?H and b = None and q = None
        and req = ?req and pm = paramPathMatch and pre = "[]" and post = "[]" and r = ?R
        and pport = None and pcors = None and pmw = "MwArr [?A1, ?A2]" and pprefix = "Some ''/api''"
        and gmw = "MwFn ?B1" and wpre = "[]" and wpost = "[]" and w = ?R and v = ?v]
  from t [where s = idle and j = 2, THEN conjunct1] c have 1:
    "map (\<lambda>x. concat (map frameMiddlewares (fst x)) @ middlewares (snd x)) (enclosed ?T)
       = [?chain]"
    by simp
  from t [where s = idle and j = 2, THEN conjunct2, THEN conjunct2, THEN conjunct2, THEN conjunct1]
    c g k
  have 2: "map_sum id (\<lambda>srv. dispatch paramPathMatch (layers srv) ?req idle) (serve ?T)
           = Inr (map_option Responded (createExpressHandler ?H ?chain None None ?req idle))"
    by auto
  have p: "\<forall>i<length ?chain. passesAt (?chain ! i) (entryState ?chain i (enterScope None None ?req ?known))"
    by (simp add: All_less_Suc eval_nat_numeral enter_def useContext_def mapGet_def
          enterScope_def openScope_def seedContext_def seedSchema_def seed_def idle_def
          useSetContext_def Let_def)
  from t [where s = ?known and j = 2, THEN conjunct2, THEN conjunct2, THEN conjunct2,
          THEN conjunct2, THEN conjunct2, THEN conjunct2, THEN conjunct1] p
  obtain r3 s3 where
    "executeNextMiddleware (length ?chain) ?chain ?H (enterScope None None ?req ?known)
       = Some (r3, s3)"
    "invoked s3 = map Some [0..<length ?chain] @ [None]"
    by blast
  then have 3: "map_option (invoked \<circ> snd)
            (executeNextMiddleware (length ?chain) ?chain ?H (enterScope None None ?req ?known))
           = Some [Some 0, Some 1, Some 2, Some 3, Some 4, Some 5, Some 6, None]"
    by (simp add: upt_rec del: executeNextMiddleware.simps)
  have 4: "map_option res (createExpressHandler ?H ?chain None None ?req ?known)
           = Some [SetHeader ''X-B2'' ''1'', SetHeader ''X-Time'' ''1'', Send ''ok'']"
    by (simp add: createExpressHandler_def callHandler_def finish_def idle_def
          sendResponseFromOutput_def sendResponseThrows_def eval_nat_numeral useContext_def
          mapGet_def enterScope_def openScope_def seedContext_def seedSchema_def seed_def
          useSetContext_def Let_def)
  have e: "j < length ?chain
      \<and> (\<forall>i<j. passesAt (?chain ! i) (entryState ?chain i (enterScope None None ?req idle)))
      \<and> ends (?chain ! j) (Returned ?v) (entryState ?chain j (enterScope None None ?req idle))"
    if "j = 2" for j
    using that
    by (simp add: All_less_Suc eval_nat_numeral enter_def useContext_def mapGet_def
          enterScope_def openScope_def seedContext_def seedSchema_def seed_def idle_def
          useSetContext_def Let_def)
  from t [where s = idle and j = 2, THEN conjunct2, THEN conjunct2, THEN conjunct2,
          THEN conjunct2, THEN conjunct2, THEN conjunct2, THEN conjunct2] e [of 2]
  obtain s5 where
    "executeNextMiddleware (length ?chain) ?chain ?H (enterScope None None ?req idle)
       = Some (Returned ?v, s5)"
    "invoked s5 = map Some [0..<Suc 2]"
    by blast
  then have 5: "map_option (invoked \<circ> snd)
            (executeNextMiddleware (length ?chain) ?chain ?H (enterScope None None ?req idle))
           = Some [Some 0, Some 1, Some 2]"
    by (simp add: upt_rec del: executeNextMiddleware.simps)
  have 6: "map_option res (createExpressHandler ?H ?chain None None ?req idle)
           = Some [SetHeader ''X-Time'' ''1'', Status 401,
                   Json (JObj [(''error'', JStr ''Unauthorized'')])]"
    by (simp add: createExpressHandler_def callHandler_def finish_def idle_def
          sendResponseFromOutput_def sendResponseThrows_def responseCalls_def branchCalls_def
          setHeaders_def setStatus_def validStatus_def headersSent_def
          eval_nat_numeral useContext_def
          mapGet_def enterScope_def openScope_def seedContext_def seedSchema_def seed_def
          useSetContext_def Let_def)
  from c 1 2 3 4 5 6 show ?thesis by (simp add: Let_def)
qed

section \<open>Properties of the routing\<close>

text \<open>
  C4.  The spec says that a request for a path that has a registered method, with
  a method that is not registered for it, is answered with 405 and the Allow
  header.  The index \<^verbatim>\<open>methodsByPath\<close> is keyed by the route path as written and is
  looked up with the path of the request, so this holds for a route path without
  parameters and fails for one with a parameter: with the routes
  \<^verbatim>\<open>GET /api/users/:id\<close> and \<^verbatim>\<open>GET /api/health\<close>, the request \<^verbatim>\<open>GET /api/users/42\<close> is
  served, \<^verbatim>\<open>DELETE /api/health\<close> is answered with 405 and \<^verbatim>\<open>Allow: GET\<close>, and
  \<^verbatim>\<open>DELETE /api/users/42\<close> is answered with 404.
\<close>

theorem method_not_allowed_misses_parameter_routes:
  "(let H = Return (ResponseElement \<lparr>rstatus = None, rjson = Some (JObj []), rtext = None,
               rhtml = None, rheaders = None, rredirect = None\<rparr>);
        T = App None None MwUndefined
              (RouteGroup (Some ''/api'') MwUndefined
                 (Fragment
                    [Route (Some ''/users/:id'') (Some ''GET'') MwUndefined (Some H) None None,
                     Route (Some ''/health'') (Some ''GET'') MwUndefined (Some H) None None]))
    in map_sum id (\<lambda>srv. map_option (case_handled res [])
              (dispatch paramPathMatch (layers srv) (plainRequest ''GET'' ''/api/users/42'') idle))
         (serve T)
         = Inr (Some [Json (JObj [])])
     \<and> map_sum id (\<lambda>srv. map_option (case_handled res [])
              (dispatch paramPathMatch (layers srv) (plainRequest ''DELETE'' ''/api/health'') idle))
         (serve T)
         = Inr (Some [SetHeader ''Allow'' ''GET'', Status 405,
                  Json (JObj [(''error'', JStr ''Method Not Allowed''),
                     (''message'', JStr ''Method DELETE is not allowed for path /api/health''),
                     (''path'', JStr ''/api/health''), (''method'', JStr ''DELETE'')])])
     \<and> map_sum id (\<lambda>srv. map_option (case_handled res [])
              (dispatch paramPathMatch (layers srv) (plainRequest ''DELETE'' ''/api/users/42'') idle))
         (serve T)
         = Inr (Some [Status 404,
                  Json (JObj [(''error'', JStr ''Not Found''),
                     (''message'', JStr ''Route DELETE /api/users/42 not found''),
                     (''path'', JStr ''/api/users/42''), (''method'', JStr ''DELETE'')])]))"
  by (simp add: Let_def serve_def compile_def emptyStore_def registerAll_def registrar_def
        methodsByPath_def addMethod_def toLowerCase_def lowerChar_def toUpperCase_def
        upperChar_def methodMatch_def paramPathMatch_def plainRequest_def idle_def
        methodNotAllowed_def notFound_def createExpressHandler_def callHandler_def
        finish_def sendResponseFromOutput_def sendResponseThrows_def responseCalls_def
        branchCalls_def setHeaders_def setStatus_def headersSent_def listenPort_def)

section \<open>Properties of the context store\<close>

text \<open>
  C9.  The spec says that a write of \<^verbatim>\<open>body\<close>, \<^verbatim>\<open>query\<close> or \<^verbatim>\<open>params\<close> in the scope of a
  request is read back by every later middleware and by the handler of the same
  request.  The scope is the one module-level variable \<^verbatim>\<open>routeContext\<close>: the handler
  of every request assigns it on entry and sets it to \<^verbatim>\<open>null\<close> in its \<^verbatim>\<open>finally\<close>, and
  a middleware that awaits a timer or I/O lets the handler of another request run
  in between.  Request \<open>A\<close> (\<^verbatim>\<open>POST /a\<close>) enters its scope and its middleware writes
  \<^verbatim>\<open>body\<close>; read at once, the value is the one written.  With a request \<open>B\<close>
  (\<^verbatim>\<open>GET /b\<close>) arriving while the middleware of \<open>A\<close> awaits, what \<open>A\<close> reads next is
  not what it wrote: while \<open>B\<close> is in its own scope, where its middleware has written
  \<^verbatim>\<open>body\<close> too, \<open>A\<close> reads the value of \<open>B\<close>; once \<open>B\<close> has been answered, \<open>A\<close> reads
  the entry of the process-wide store (here none: \<^verbatim>\<open>undefined\<close>), \<^verbatim>\<open>useRoute()\<close> throws,
  and a further write of \<open>A\<close> lands in the process-wide store.
\<close>

theorem overlapping_request_loses_written_body:
  "(let V = Object (JObj [(''name'', JStr ''a'')]);
        W = Object (JObj [(''name'', JStr ''b'')]);
        reqA = plainRequest ''POST'' ''/a'';
        reqB = plainRequest ''GET'' ''/b'';
        a0 = enterScope None None reqA idle;
        a1 = useSetContext ''body'' V a0;
        b0 = enterScope None None reqB (a1\<lparr>res := []\<rparr>);
        b1 = useSetContext ''body'' W b0;
        answered = createExpressHandler (Return (String ''ok'')) [] None None reqB (a1\<lparr>res := []\<rparr>)
    in useContext ''body'' a1 = V
       \<and> map_option body (useRoute a1) = Some V
       \<and> useContext ''body'' b1 = W
       \<and> map_option body (useRoute b1) = Some W
       \<and> W \<noteq> V
       \<and> map_option res answered = Some [Send ''ok'']
       \<and> map_option (useContext ''body'') answered = Some Undefined
       \<and> map_option useRoute answered = Some None
       \<and> map_option (\<lambda>s. globalContext (useSetContext ''body'' V s) ''body'') answered
           = Some (Some V))"
  by (simp add: Let_def createExpressHandler_def callHandler_def finish_def idle_def
        sendResponseFromOutput_def sendResponseThrows_def useContext_def useRoute_def
        mapGet_def enterScope_def openScope_def seedContext_def seedSchema_def seed_def
        useSetContext_def plainRequest_def)

end
